theory Spec2Isabelle
  imports Complex_Main "HOL-Library.Multiset"
begin

section \<open>Values, errors and responses\<close>

text \<open>
  The data service of \<^verbatim>\<open>src/data_service.py\<close> receives JSON and reshapes it. A decoded
  JSON value is one of Python's \<^verbatim>\<open>None\<close>, \<^verbatim>\<open>bool\<close>, \<^verbatim>\<open>int\<close>, \<^verbatim>\<open>float\<close>,
  \<^verbatim>\<open>str\<close>, \<^verbatim>\<open>list\<close> and \<^verbatim>\<open>dict\<close>. A finite float is carried as the rational
  number it denotes: the service never computes with it, it only stores it and compares
  it as a dictionary key, and Python compares numbers by their exact values. The
  non-finite floats, which are not JSON, are not modelled. A \<^verbatim>\<open>dict\<close> is the
  list of its pairs, read with \<^const>\<open>map_of\<close>.
\<close>

datatype json =
    JNull
  | JBool bool
  | JInt int
  | JFloat rat
  | JStr string
  | JArr "json list"
  | JObj "(string \<times> json) list"

text \<open>
  The exceptions the code can raise, as values. \<open>RequestException\<close> is what
  \<^verbatim>\<open>requests.get\<close> raises when no response arrives; \<open>InvalidLineError\<close> is what
  \<^verbatim>\<open>jsonlines.Reader\<close> raises at a line that is not JSON; \<open>JSONDecodeError\<close> is what
  \<^verbatim>\<open>Response.json()\<close> raises; \<open>OutOfBoundsDatetime\<close> is one of the errors of
  \<^verbatim>\<open>pd.to_datetime\<close>.
\<close>

datatype error =
    RequestException
  | InvalidLineError
  | JSONDecodeError
  | KeyError string
  | TypeError
  | ValueError
  | OutOfBoundsDatetime

text \<open>
  Iterating over \<^verbatim>\<open>jsonlines.Reader(response.raw)\<close> yields, line after line, either a
  decoded value or an exception (a line that is not JSON, a broken connection).
\<close>

datatype line = Item json | Raises error

text \<open>
  What the code can observe of a \<^verbatim>\<open>requests.Response\<close>: the status code (which no
  method of the service reads), the result of \<^verbatim>\<open>.json()\<close> and the lines read from
  \<^verbatim>\<open>.raw\<close>.
\<close>

record response =
  status_code :: nat
  json_body :: "error + json"
  raw :: "line list"

text \<open>
  \<^verbatim>\<open>requests.get\<close> is a parameter \<open>http\<close> of every method: it maps the URL to the
  exception raised or to the response. Every method returns, beside its result, the
  list of the URLs it requested, in order.
\<close>

type_synonym requests_get = "string \<Rightarrow> error + response"

section \<open>Python operations\<close>

text \<open>\<^verbatim>\<open>x[k]\<close> for a string \<open>k\<close>: only a dict can be subscripted by a string.\<close>

fun subscript :: "json \<Rightarrow> string \<Rightarrow> error + json" where
  "subscript (JObj fs) k = (case map_of fs k of None \<Rightarrow> Inl (KeyError k) | Some v \<Rightarrow> Inr v)"
| "subscript _ k = Inl TypeError"

text \<open>
  A list comprehension \<^verbatim>\<open>[f(x) for x in xs]\<close>: the elements in order, or the first
  exception.
\<close>

fun list_comp :: "('a \<Rightarrow> error + 'b) \<Rightarrow> 'a list \<Rightarrow> error + 'b list" where
  "list_comp f [] = Inr []"
| "list_comp f (x # xs) =
     (case f x of
        Inl e \<Rightarrow> Inl e
      | Inr y \<Rightarrow> (case list_comp f xs of Inl e \<Rightarrow> Inl e | Inr ys \<Rightarrow> Inr (y # ys)))"

text \<open>
  Dictionary keys. Lists and dicts are unhashable (\<^verbatim>\<open>TypeError\<close>); two keys are the
  same key when Python's \<^verbatim>\<open>==\<close> holds, which on numbers (\<^verbatim>\<open>True == 1 == 1.0\<close>) compares
  values.
\<close>

fun hashable :: "json \<Rightarrow> bool" where
  "hashable (JArr _) = False"
| "hashable (JObj _) = False"
| "hashable _ = True"

fun num_val :: "json \<Rightarrow> rat option" where
  "num_val (JBool b) = Some (if b then 1 else 0)"
| "num_val (JInt i) = Some (of_int i)"
| "num_val (JFloat q) = Some q"
| "num_val _ = None"

definition py_eq :: "json \<Rightarrow> json \<Rightarrow> bool" where
  "py_eq a b =
     (case num_val a of
        Some x \<Rightarrow> (case num_val b of Some y \<Rightarrow> x = y | None \<Rightarrow> False)
      | None \<Rightarrow> (case num_val b of Some y \<Rightarrow> False | None \<Rightarrow> a = b))"

text \<open>
  A Python dict keeps its keys in insertion order, so it is an association list.
  \<open>dict_set\<close> is \<^verbatim>\<open>d[k] = v\<close>; \<open>dict_append\<close> is \<^verbatim>\<open>d[k].append(v)\<close> on a
  \<^verbatim>\<open>defaultdict(list)\<close>, which creates the empty list on the first sight of \<open>k\<close>.
  In both the key kept is the one inserted first.
\<close>

fun dict_set :: "json \<Rightarrow> 'v \<Rightarrow> (json \<times> 'v) list \<Rightarrow> (json \<times> 'v) list" where
  "dict_set k v [] = [(k, v)]"
| "dict_set k v ((k', v') # d) =
     (if py_eq k' k then (k', v) # d else (k', v') # dict_set k v d)"

fun dict_append :: "json \<Rightarrow> 'v \<Rightarrow> (json \<times> 'v list) list \<Rightarrow> (json \<times> 'v list) list" where
  "dict_append k v [] = [(k, [v])]"
| "dict_append k v ((k', vs) # d) =
     (if py_eq k' k then (k', vs @ [v]) # d else (k', vs) # dict_append k v d)"

text \<open>\<^verbatim>\<open>str(n)\<close> for an integer: its decimal digits, after a minus sign when negative.\<close>

fun str_nat :: "nat \<Rightarrow> string" where
  "str_nat n =
     (if n < 10 then [''0123456789'' ! n]
      else str_nat (n div 10) @ [''0123456789'' ! (n mod 10)])"

declare str_nat.simps [simp del]

definition str_int :: "int \<Rightarrow> string" where
  "str_int i = (if i < 0 then CHR ''-'' # str_nat (nat (- i)) else str_nat (nat i))"

text \<open>An element of \<^verbatim>\<open>pair_ids: list[int|str]\<close>, and \<^verbatim>\<open>str\<close> of it.\<close>

datatype int_or_str = PyInt int | PyStr string

fun str :: "int_or_str \<Rightarrow> string" where
  "str (PyInt i) = str_int i"
| "str (PyStr s) = s"

text \<open>\<^verbatim>\<open>sep.join(xs)\<close>.\<close>

fun join :: "string \<Rightarrow> string list \<Rightarrow> string" where
  "join sep [] = []"
| "join sep [x] = x"
| "join sep (x # y # ys) = x @ sep @ join sep (y # ys)"

section \<open>pandas\<close>

text \<open>
  pandas is not part of the repository, so what the service uses of it is a parameter
  \<open>pd\<close> of every method, with the structure pandas has:
  \<^item> \<open>to_datetime\<close> is the conversion of one element by
    \<^verbatim>\<open>pd.to_datetime(ts, unit="s")\<close>, which converts a list element by element and
    raises at the first element it cannot convert;
  \<^item> a column is built from a list of values by inferring one dtype from the whole
    list (\<open>infer_dtype\<close>) and storing every value as a cell of that dtype (\<open>astype\<close>:
    an integer beside a float becomes a float, \<^verbatim>\<open>None\<close> beside numbers becomes NaN,
    a value of an object column is kept); storing may raise;
  \<^item> \<open>Index\<close> builds the row labels from a list handed in as \<^verbatim>\<open>index=\<close>; it sees
    the whole list (a list of lists becomes the levels of a MultiIndex, so the number
    of labels need not be the length of the list) and may raise.
  Nothing is assumed of the four functions: every theorem holds for whatever pandas
  does within this structure.
\<close>

record ('t, 'd, 'c, 'i) pandas =
  to_datetime :: "json \<Rightarrow> error + 't"
  infer_dtype :: "json list \<Rightarrow> 'd"
  astype :: "'d \<Rightarrow> json \<Rightarrow> error + 'c"
  Index :: "json list \<Rightarrow> error + 'i list"

record ('i, 'c) data_frame =
  index :: "'i list"
  columns :: "(string \<times> 'c list) list"

definition column :: "('t, 'd, 'c, 'i) pandas \<Rightarrow> json list \<Rightarrow> error + 'c list" where
  "column pd xs = list_comp (astype pd (infer_dtype pd xs)) xs"

fun make_columns ::
  "('t, 'd, 'c, 'i) pandas \<Rightarrow> (string \<times> json list) list \<Rightarrow> error + (string \<times> 'c list) list" where
  "make_columns pd [] = Inr []"
| "make_columns pd ((name, xs) # data) =
     (case column pd xs of
        Inl e \<Rightarrow> Inl e
      | Inr cells \<Rightarrow>
          (case make_columns pd data of Inl e \<Rightarrow> Inl e | Inr cols \<Rightarrow> Inr ((name, cells) # cols)))"

text \<open>
  \<^verbatim>\<open>pd.DataFrame(data=..., index=...)\<close> with the row labels already built: the named
  columns in the order of the \<open>data\<close> dict, beside the labels. pandas raises
  \<^verbatim>\<open>ValueError\<close> when a column and the index differ in length. Which exception comes
  first when a length differs and a value cannot be stored is a choice of the model.
\<close>

definition DataFrame ::
  "('t, 'd, 'c, 'i) pandas \<Rightarrow> (string \<times> json list) list \<Rightarrow> 'l list \<Rightarrow> error + ('l, 'c) data_frame" where
  "DataFrame pd data idx =
     (if list_all (\<lambda>col. length (snd col) = length idx) data
      then (case make_columns pd data of
              Inl e \<Rightarrow> Inl e
            | Inr cols \<Rightarrow> Inr \<lparr>index = idx, columns = cols\<rparr>)
      else Inl ValueError)"

section \<open>The method get-ohlcv-candles\<close>

text \<open>
  Lines 139 to 141: the request URL. An argument left out in the call is \<open>None\<close> and
  takes the default of the signature, \<^verbatim>\<open>time_bucket="15m"\<close> and
  \<^verbatim>\<open>max_bytes = 250000000\<close>.
\<close>

definition candles_url ::
  "string \<Rightarrow> int_or_str list \<Rightarrow> string \<Rightarrow> string \<Rightarrow> string option \<Rightarrow> int option \<Rightarrow> string" where
  "candles_url api_url pair_ids start_time end_time time_bucket max_bytes =
     (let pair_ids_string = join '','' (map str pair_ids);
          api_extension =
            ''candles-jsonl?pair_ids='' @ pair_ids_string
            @ ''&time_bucket='' @ (case time_bucket of None \<Rightarrow> ''15m'' | Some b \<Rightarrow> b)
            @ ''&start='' @ start_time
            @ ''&end='' @ end_time
            @ ''&max_bytes='' @ str_int (case max_bytes of None \<Rightarrow> 250000000 | Some n \<Rightarrow> n)
      in api_url @ api_extension)"

text \<open>
  Lines 144 to 147, the first loop: every item read is appended to the list of its
  \<^verbatim>\<open>item["p"]\<close> in \<open>candle_dict\<close>. The loop stops at the first exception: of the
  reader, of the subscript, or of hashing the key.
\<close>

fun group_items :: "line list \<Rightarrow> (json \<times> json list) list \<Rightarrow> error + (json \<times> json list) list" where
  "group_items [] candle_dict = Inr candle_dict"
| "group_items (Raises e # reader) candle_dict = Inl e"
| "group_items (Item item # reader) candle_dict =
     (case subscript item ''p'' of
        Inl e \<Rightarrow> Inl e
      | Inr pair_id \<Rightarrow>
          if hashable pair_id
          then group_items reader (dict_append pair_id item candle_dict)
          else Inl TypeError)"

text \<open>
  Lines 152 to 158, the body of the second loop: six list comprehensions over the
  items of one group, then the conversion of the timestamps, then the frame.
\<close>

definition candle_frame ::
  "('t, 'd, 'c, 'i) pandas \<Rightarrow> json list \<Rightarrow> error + ('t, 'c) data_frame" where
  "candle_frame pd value =
     (case list_comp (\<lambda>val. subscript val ''ts'') value of Inl e \<Rightarrow> Inl e | Inr ts \<Rightarrow>
     (case list_comp (\<lambda>val. subscript val ''o'') value of Inl e \<Rightarrow> Inl e | Inr opens \<Rightarrow>
     (case list_comp (\<lambda>val. subscript val ''h'') value of Inl e \<Rightarrow> Inl e | Inr high \<Rightarrow>
     (case list_comp (\<lambda>val. subscript val ''l'') value of Inl e \<Rightarrow> Inl e | Inr low \<Rightarrow>
     (case list_comp (\<lambda>val. subscript val ''c'') value of Inl e \<Rightarrow> Inl e | Inr closes \<Rightarrow>
     (case list_comp (\<lambda>val. subscript val ''v'') value of Inl e \<Rightarrow> Inl e | Inr volume \<Rightarrow>
     (case list_comp (to_datetime pd) ts of Inl e \<Rightarrow> Inl e | Inr idx \<Rightarrow>
        DataFrame pd
          [(''Open'', opens), (''High'', high), (''Low'', low), (''Close'', closes),
           (''Volume'', volume)]
          idx)))))))"

text \<open>Lines 149 to 159, the second loop over \<^verbatim>\<open>candle_dict.items()\<close>.\<close>

fun build_frames ::
  "('t, 'd, 'c, 'i) pandas \<Rightarrow> (json \<times> json list) list \<Rightarrow> (json \<times> ('t, 'c) data_frame) list
   \<Rightarrow> error + (json \<times> ('t, 'c) data_frame) list" where
  "build_frames pd [] return_dict = Inr return_dict"
| "build_frames pd ((key, value) # items) return_dict =
     (case candle_frame pd value of
        Inl e \<Rightarrow> Inl e
      | Inr df \<Rightarrow> build_frames pd items (dict_set key df return_dict))"

text \<open>Lines 143 to 161: from the lines of the response to the returned dict.\<close>

definition read_candles ::
  "('t, 'd, 'c, 'i) pandas \<Rightarrow> line list \<Rightarrow> error + (json \<times> ('t, 'c) data_frame) list" where
  "read_candles pd reader =
     (case group_items reader [] of
        Inl e \<Rightarrow> Inl e
      | Inr candle_dict \<Rightarrow> build_frames pd candle_dict [])"

definition get_ohlcv_candles ::
  "requests_get \<Rightarrow> ('t, 'd, 'c, 'i) pandas \<Rightarrow> string \<Rightarrow> int_or_str list \<Rightarrow> string \<Rightarrow> string
   \<Rightarrow> string option \<Rightarrow> int option
   \<Rightarrow> string list \<times> (error + (json \<times> ('t, 'c) data_frame) list)" where
  "get_ohlcv_candles http pd api_url pair_ids start_time end_time time_bucket max_bytes =
     (let url = candles_url api_url pair_ids start_time end_time time_bucket max_bytes
      in ([url],
          case http url of
            Inl e \<Rightarrow> Inl e
          | Inr response \<Rightarrow> read_candles pd (raw response)))"

section \<open>The method get-chain-data\<close>




section \<open>Vocabulary of the specification\<close>

text \<open>The members of a decoded object, and the fields of a response line.\<close>

fun member :: "json \<Rightarrow> string \<Rightarrow> json option" where
  "member (JObj fs) k = map_of fs k"
| "member _ k = None"

fun fields_of :: "line \<Rightarrow> string \<Rightarrow> json option" where
  "fields_of (Item j) k = member j k"
| "fields_of (Raises e) k = None"

fun is_object :: "json \<Rightarrow> bool" where
  "is_object (JObj _) = True"
| "is_object _ = False"


definition field :: "string \<Rightarrow> line \<Rightarrow> json" where
  "field k l = the (fields_of l k)"

text \<open>A pair identifier is an integer or a string.\<close>

fun is_identifier :: "json \<Rightarrow> bool" where
  "is_identifier (JInt _) = True"
| "is_identifier (JStr _) = True"
| "is_identifier _ = False"

definition pair_identifier :: "line \<Rightarrow> json" where
  "pair_identifier l = field ''p'' l"

definition timestamp :: "('t, 'd, 'c, 'i) pandas \<Rightarrow> line \<Rightarrow> 't" where
  "timestamp pd l = projr (to_datetime pd (field ''ts'' l))"

text \<open>
  A valid candle line: an object whose \<open>p\<close> is a pair identifier, whose \<open>ts\<close> can be
  converted to a point in time, and which has the five fields \<open>o\<close>, \<open>h\<close>, \<open>l\<close>,
  \<open>c\<close>, \<open>v\<close>.
\<close>

definition valid_line :: "('t, 'd, 'c, 'i) pandas \<Rightarrow> line \<Rightarrow> bool" where
  "valid_line pd l =
     ((case fields_of l ''p'' of None \<Rightarrow> False | Some p \<Rightarrow> is_identifier p)
      \<and> (case fields_of l ''ts'' of None \<Rightarrow> False | Some t \<Rightarrow> \<not> isl (to_datetime pd t))
      \<and> list_all (\<lambda>k. fields_of l k \<noteq> None) [''o'', ''h'', ''l'', ''c'', ''v''])"

text \<open>
  The group of a line in a stream: the lines with the same pair identifier, in the
  order of the stream. The cell that pandas stores for the field \<open>k\<close> of a line \<open>l\<close>
  of a group \<open>g\<close>: the value of the field, as the dtype inferred from the values of
  that field in the whole group. A group can be stored when pandas stores every such
  value without an exception, and a stream when each of its groups can.
\<close>

definition group_of :: "line list \<Rightarrow> line \<Rightarrow> line list" where
  "group_of ls l = filter (\<lambda>l'. pair_identifier l' = pair_identifier l) ls"

definition stored :: "('t, 'd, 'c, 'i) pandas \<Rightarrow> line list \<Rightarrow> string \<Rightarrow> line \<Rightarrow> 'c" where
  "stored pd g k l = projr (astype pd (infer_dtype pd (map (field k) g)) (field k l))"

definition storable_group :: "('t, 'd, 'c, 'i) pandas \<Rightarrow> line list \<Rightarrow> bool" where
  "storable_group pd g =
     list_all (\<lambda>l. list_all (\<lambda>k. \<not> isl (astype pd (infer_dtype pd (map (field k) g)) (field k l)))
                      [''o'', ''h'', ''l'', ''c'', ''v'']) g"

definition storable :: "('t, 'd, 'c, 'i) pandas \<Rightarrow> line list \<Rightarrow> bool" where
  "storable pd ls = list_all (\<lambda>l. storable_group pd (group_of ls l)) ls"

text \<open>
  A valid stream: valid candle lines whose values pandas can store.
\<close>

definition valid_stream :: "('t, 'd, 'c, 'i) pandas \<Rightarrow> line list \<Rightarrow> bool" where
  "valid_stream pd ls = (list_all (valid_line pd) ls \<and> storable pd ls)"

text \<open>
  The rows of a frame: the n-th index label beside the n-th cell of every column. The
  row of a line within its group, the row of a line of a stream, and the series of a
  group say what the specification expects a frame to hold: the point in time of the
  line beside the cells stored for its open, high, low, close and volume.
\<close>

definition rows :: "('l, 'c) data_frame \<Rightarrow> ('l \<times> (string \<times> 'c) list) list" where
  "rows df =
     map (\<lambda>n. (index df ! n, map (\<lambda>col. (fst col, snd col ! n)) (columns df)))
       [0..<length (index df)]"

definition group_row ::
  "('t, 'd, 'c, 'i) pandas \<Rightarrow> line list \<Rightarrow> line \<Rightarrow> 't \<times> (string \<times> 'c) list" where
  "group_row pd g l =
     (timestamp pd l,
      [(''Open'', stored pd g ''o'' l), (''High'', stored pd g ''h'' l),
       (''Low'', stored pd g ''l'' l), (''Close'', stored pd g ''c'' l),
       (''Volume'', stored pd g ''v'' l)])"

definition candle_row ::
  "('t, 'd, 'c, 'i) pandas \<Rightarrow> line list \<Rightarrow> line \<Rightarrow> 't \<times> (string \<times> 'c) list" where
  "candle_row pd ls l = group_row pd (group_of ls l) l"

definition series :: "('t, 'd, 'c, 'i) pandas \<Rightarrow> line list \<Rightarrow> ('t, 'c) data_frame" where
  "series pd g =
     \<lparr>index = map (timestamp pd) g,
      columns =
        [(''Open'', map (stored pd g ''o'') g), (''High'', map (stored pd g ''h'') g),
         (''Low'', map (stored pd g ''l'') g), (''Close'', map (stored pd g ''c'') g),
         (''Volume'', map (stored pd g ''v'') g)]\<rparr>"

text \<open>
  A line can be grouped when it is an object with a hashable \<open>p\<close>: the first loop
  appends it to a group without an exception.
\<close>

definition groupable :: "line \<Rightarrow> bool" where
  "groupable l = (case fields_of l ''p'' of None \<Rightarrow> False | Some p \<Rightarrow> hashable p)"

text \<open>The distinct elements of a list, each at the place of its first occurrence.\<close>

fun first_occurrences :: "'a list \<Rightarrow> 'a list" where
  "first_occurrences [] = []"
| "first_occurrences (x # xs) = x # removeAll x (first_occurrences xs)"

text \<open>
  Two response lines agree when both are objects with the same value, or both with
  none, for each of the seven candle fields.
\<close>

definition candle_fields :: "string list" where
  "candle_fields = [''p'', ''ts'', ''o'', ''h'', ''l'', ''c'', ''v'']"

definition same_fields :: "json \<Rightarrow> json \<Rightarrow> bool" where
  "same_fields a b =
     (is_object a \<and> is_object b \<and> list_all (\<lambda>k. member a k = member b k) candle_fields)"

fun agree :: "line \<Rightarrow> line \<Rightarrow> bool" where
  "agree (Item a) (Item b) = same_fields a b"
| "agree _ _ = False"

text \<open>
  How the receiver of the query reads a comma-separated value: \<^verbatim>\<open>s.split(",")\<close>.
\<close>

fun split_commas :: "string \<Rightarrow> string list" where
  "split_commas [] = [[]]"
| "split_commas (c # cs) =
     (if c = CHR '','' then [] # split_commas cs
      else (case split_commas cs of [] \<Rightarrow> [[c]] | w # ws \<Rightarrow> (c # w) # ws))"

text \<open>
  Decimal numerals, read independently of \<open>str_int\<close>: the value of a digit is its
  place among the ten digits, the value of a numeral is read from the left, and a
  numeral is canonical when it is a non-empty string of digits without a leading zero
  (but \<open>0\<close> itself), after a minus sign for a negative number.
\<close>

definition digit_value :: "char \<Rightarrow> nat" where
  "digit_value c = length (takeWhile (\<lambda>d. d \<noteq> c) ''0123456789'')"

definition decimal_value :: "string \<Rightarrow> nat" where
  "decimal_value s = foldl (\<lambda>a c. 10 * a + digit_value c) 0 s"

definition int_value :: "string \<Rightarrow> int" where
  "int_value s =
     (case s of
        [] \<Rightarrow> 0
      | c # cs \<Rightarrow> if c = CHR ''-'' then - int (decimal_value cs) else int (decimal_value s))"

definition canonical_nat :: "string \<Rightarrow> bool" where
  "canonical_nat s =
     (s \<noteq> [] \<and> list_all (\<lambda>c. c \<in> set ''0123456789'') s \<and> (s = ''0'' \<or> hd s \<noteq> CHR ''0''))"

definition canonical_int :: "string \<Rightarrow> bool" where
  "canonical_int s =
     (case s of
        [] \<Rightarrow> False
      | c # cs \<Rightarrow> if c = CHR ''-'' then canonical_nat cs \<and> cs \<noteq> ''0'' else canonical_nat s)"




section \<open>Notions of the proofs\<close>

text \<open>
  The item a line carries, and two dicts of groups with the same keys in the same
  order whose items agree one by one on the candle fields.
\<close>

fun item_of :: "line \<Rightarrow> json" where
  "item_of (Item j) = j"
| "item_of (Raises e) = JNull"

definition same_groups :: "(json \<times> json list) list \<Rightarrow> (json \<times> json list) list \<Rightarrow> bool" where
  "same_groups d1 d2 =
     list_all2 (\<lambda>g1 g2. fst g1 = fst g2 \<and> list_all2 same_fields (snd g1) (snd g2)) d1 d2"

section \<open>Sample inputs\<close>

text \<open>
  A sample of pandas for the worked examples. It follows pandas on what the examples
  hold: an integer number of seconds becomes the point in time that many seconds
  after the epoch; a column of integers is stored as integers; a column of integers,
  floats and nulls with a float or a null in it is stored as floats, an integer as
  the float of the same value and a null as NaN; any other column keeps its values as
  objects; row labels are built like a column. Where pandas would round an integer,
  overflow, or build a MultiIndex, the sample raises instead of following it.
\<close>

datatype dtype = Int64 | Float64 | Object

datatype cell = CInt int | CFloat rat | CNaN | CObj json

definition epoch_seconds :: "json \<Rightarrow> error + int" where
  "epoch_seconds j = (case j of JInt n \<Rightarrow> Inr n | _ \<Rightarrow> Inl TypeError)"

fun is_int :: "json \<Rightarrow> bool" where
  "is_int (JInt _) = True"
| "is_int _ = False"

fun is_numeric :: "json \<Rightarrow> bool" where
  "is_numeric (JInt _) = True"
| "is_numeric (JFloat _) = True"
| "is_numeric JNull = True"
| "is_numeric _ = False"

definition sample_infer :: "json list \<Rightarrow> dtype" where
  "sample_infer xs =
     (if xs \<noteq> [] \<and> list_all is_int xs then Int64
      else if list_all is_numeric xs \<and> \<not> list_all (\<lambda>x. x = JNull) xs then Float64
      else Object)"

definition sample_astype :: "dtype \<Rightarrow> json \<Rightarrow> error + cell" where
  "sample_astype d j =
     (case d of
        Int64 \<Rightarrow>
          (case j of
             JInt n \<Rightarrow> if - (2 ^ 63) \<le> n \<and> n < 2 ^ 63 then Inr (CInt n) else Inl ValueError
           | _ \<Rightarrow> Inl TypeError)
      | Float64 \<Rightarrow>
          (case j of
             JInt n \<Rightarrow>
               if - (2 ^ 53) \<le> n \<and> n \<le> 2 ^ 53 then Inr (CFloat (of_int n)) else Inl ValueError
           | JFloat q \<Rightarrow> Inr (CFloat q)
           | JNull \<Rightarrow> Inr CNaN
           | _ \<Rightarrow> Inl TypeError)
      | Object \<Rightarrow> Inr (CObj j))"

definition sample_index :: "json list \<Rightarrow> error + cell list" where
  "sample_index xs =
     (if list_all hashable xs then list_comp (sample_astype (sample_infer xs)) xs
      else Inl ValueError)"

definition sample_pandas :: "(int, dtype, cell, cell) pandas" where
  "sample_pandas =
     \<lparr>to_datetime = epoch_seconds, infer_dtype = sample_infer, astype = sample_astype,
      Index = sample_index\<rparr>"

text \<open>
  A candle line of pair \<open>p\<close> at time \<open>t\<close>, a server that answers every request with
  the same response, one that answers with a status and lines, and one that cannot be
  reached.
\<close>

definition candle :: "int \<Rightarrow> int \<Rightarrow> int \<Rightarrow> line" where
  "candle p t x =
     Item (JObj [(''p'', JInt p), (''ts'', JInt t), (''o'', JInt x), (''h'', JInt (x + 2)),
                 (''l'', JInt (x - 1)), (''c'', JInt (x + 1)), (''v'', JFloat (5 / 2))])"


definition answer :: "nat \<Rightarrow> line list \<Rightarrow> requests_get" where
  "answer status lines =
     (\<lambda>url. Inr \<lparr>status_code = status, json_body = Inl JSONDecodeError, raw = lines\<rparr>)"

definition unreachable :: requests_get where
  "unreachable = (\<lambda>url. Inl RequestException)"

definition sample_api_url :: string where
  "sample_api_url = ''https://tradingstrategy.ai/api/''"

section \<open>Auxiliary lemmas\<close>

lemma py_eq_identifier: "is_identifier a \<Longrightarrow> is_identifier b \<Longrightarrow> py_eq a b = (a = b)"
  by (cases a; cases b) (simp_all add: py_eq_def)

lemma set_first_occurrences [simp]: "set (first_occurrences xs) = set xs"
  by (induction xs) auto

lemma distinct_first_occurrences [simp]: "distinct (first_occurrences xs)"
  by (induction xs) (auto simp: distinct_removeAll)

lemma first_occurrences_snoc:
  "first_occurrences (xs @ [x]) =
     (if x \<in> set xs then first_occurrences xs else first_occurrences xs @ [x])"
  by (induction xs) auto

lemma dict_append_grouped:
  assumes "is_identifier k" "list_all is_identifier ks" "distinct ks"
  shows "dict_append k v (map (\<lambda>k'. (k', G k')) ks) =
    (if k \<in> set ks then map (\<lambda>k'. (k', if k' = k then G k' @ [v] else G k')) ks
     else map (\<lambda>k'. (k', G k')) ks @ [(k, [v])])"
  using assms
proof (induction ks)
  case Nil
  then show ?case by simp
next
  case (Cons a ks)
  then show ?case by (auto simp: py_eq_identifier)
qed

lemma dict_set_fresh:
  assumes "is_identifier k" "list_all is_identifier (map fst d)" "k \<notin> set (map fst d)"
  shows "dict_set k v d = d @ [(k, v)]"
  using assms by (induction d) (auto simp: py_eq_identifier)

lemma group_items_append:
  "group_items (xs @ ys) d =
     (case group_items xs d of Inl e \<Rightarrow> Inl e | Inr d' \<Rightarrow> group_items ys d')"
proof (induction xs arbitrary: d)
  case Nil
  then show ?case by simp
next
  case (Cons x xs)
  then show ?case by (cases x) (auto split: sum.splits)
qed

lemma valid_line_item:
  assumes "valid_line pd l"
  obtains fs where "l = Item (JObj fs)"
proof (cases l)
  case (Item j)
  with assms that show ?thesis by (cases j) (simp_all add: valid_line_def)
next
  case (Raises e)
  with assms show ?thesis by (simp add: valid_line_def)
qed

lemma valid_subscript_p:
  assumes "valid_line pd l"
  shows "subscript (item_of l) ''p'' = Inr (pair_identifier l)" "is_identifier (pair_identifier l)"
proof -
  obtain fs where l: "l = Item (JObj fs)" using assms by (rule valid_line_item)
  from assms show "subscript (item_of l) ''p'' = Inr (pair_identifier l)"
    by (auto simp: l valid_line_def pair_identifier_def field_def split: option.splits)
  from assms show "is_identifier (pair_identifier l)"
    by (auto simp: l valid_line_def pair_identifier_def field_def split: option.splits)
qed

lemma is_identifier_hashable: "is_identifier j \<Longrightarrow> hashable j"
  by (cases j) simp_all

lemma group_items_valid:
  assumes "list_all (valid_line pd) ls"
  shows "group_items ls [] =
    Inr (map (\<lambda>k. (k, map item_of (filter (\<lambda>l. pair_identifier l = k) ls)))
          (first_occurrences (map pair_identifier ls)))"
  using assms
proof (induction ls rule: rev_induct)
  case Nil
  then show ?case by simp
next
  case (snoc l ls)
  let ?ks = "first_occurrences (map pair_identifier ls)"
  from snoc.prems have vl: "valid_line pd l" and vls: "list_all (valid_line pd) ls" by simp_all
  obtain fs where l: "l = Item (JObj fs)" using vl by (rule valid_line_item)
  have ids: "list_all is_identifier ?ks"
    using vls by (auto simp: list_all_iff valid_subscript_p(2))
  have idk: "is_identifier (pair_identifier l)" using vl by (rule valid_subscript_p(2))
  have sub: "subscript (JObj fs) ''p'' = Inr (pair_identifier l)"
    using valid_subscript_p(1)[OF vl] by (simp add: l)
  have step: "group_items [l] d = Inr (dict_append (pair_identifier l) (JObj fs) d)" for d
    using sub idk by (simp add: l is_identifier_hashable del: subscript.simps)
  have "group_items (ls @ [l]) [] =
      Inr (dict_append (pair_identifier l) (JObj fs)
        (map (\<lambda>k. (k, map item_of (filter (\<lambda>l. pair_identifier l = k) ls))) ?ks))"
    by (simp add: group_items_append snoc.IH[OF vls] step del: group_items.simps)
  also have "dict_append (pair_identifier l) (JObj fs)
        (map (\<lambda>k. (k, map item_of (filter (\<lambda>l. pair_identifier l = k) ls))) ?ks) =
      map (\<lambda>k. (k, map item_of (filter (\<lambda>l. pair_identifier l = k) (ls @ [l]))))
          (first_occurrences (map pair_identifier (ls @ [l])))"
  proof (cases "pair_identifier l \<in> set (map pair_identifier ls)")
    case True
    then show ?thesis
      using dict_append_grouped[where G="\<lambda>k. map item_of (filter (\<lambda>l. pair_identifier l = k) ls)" and v="JObj fs", OF idk ids]
      by (auto simp: first_occurrences_snoc l)
  next
    case False
    then have "\<forall>l'\<in>set ls. pair_identifier l' \<noteq> pair_identifier l"
      by (metis image_eqI list.set_map)
    then have "filter (\<lambda>l'. pair_identifier l' = pair_identifier l) ls = []"
      by (simp add: filter_empty_conv)
    with False show ?thesis
      using dict_append_grouped[where G="\<lambda>k. map item_of (filter (\<lambda>l. pair_identifier l = k) ls)" and v="JObj fs", OF idk ids]
      by (auto simp: first_occurrences_snoc l)
  qed
  finally show ?case .
qed


lemma valid_subscript_field:
  assumes "valid_line pd l" "k \<in> set [''ts'', ''o'', ''h'', ''l'', ''c'', ''v'']"
  shows "subscript (item_of l) k = Inr (field k l)"
proof -
  obtain fs where l: "l = Item (JObj fs)" using assms(1) by (rule valid_line_item)
  from assms have "fields_of l k \<noteq> None"
    by (auto simp: valid_line_def split: option.splits)
  then show ?thesis by (auto simp: l field_def)
qed

lemma valid_to_datetime:
  assumes "valid_line pd l"
  shows "to_datetime pd (field ''ts'' l) = Inr (timestamp pd l)"
  using assms by (auto simp: valid_line_def field_def timestamp_def split: option.splits)

lemma list_comp_subscript_valid:
  assumes "list_all (valid_line pd) ls" "k \<in> set [''ts'', ''o'', ''h'', ''l'', ''c'', ''v'']"
  shows "list_comp (\<lambda>val. subscript val k) (map item_of ls) = Inr (map (field k) ls)"
  using assms(1)
proof (induction ls)
  case Nil
  then show ?case by simp
next
  case (Cons l ls)
  then show ?case using valid_subscript_field[OF _ assms(2), of pd l] by simp
qed

lemma list_comp_to_datetime_valid:
  assumes "list_all (valid_line pd) ls"
  shows "list_comp (to_datetime pd) (map (field ''ts'') ls) = Inr (map (timestamp pd) ls)"
  using assms by (induction ls) (simp_all add: valid_to_datetime)

subsection \<open>Lines that agree on the candle fields\<close>

lemma same_fields_subscript:
  assumes "same_fields a b" "k \<in> set candle_fields"
  shows "subscript a k = subscript b k"
proof -
  from assms(1) obtain fs gs where ab: "a = JObj fs" "b = JObj gs"
    by (cases a; cases b) (simp_all add: same_fields_def)
  from assms have "map_of fs k = map_of gs k"
    by (simp add: same_fields_def ab list_all_iff)
  then show ?thesis by (simp add: ab)
qed

lemma same_groups_dict_append:
  assumes "same_groups d1 d2" "same_fields a b"
  shows "same_groups (dict_append k a d1) (dict_append k b d2)"
  using assms(1) unfolding same_groups_def
proof (induction rule: list_all2_induct)
  case Nil
  then show ?case using assms(2) by simp
next
  case (Cons g1 d1 g2 d2)
  then show ?case using assms(2)
    by (cases g1; cases g2) (auto simp: list_all2_appendI)
qed

lemma group_items_same:
  assumes "list_all2 agree ls1 ls2" "same_groups d1 d2"
  shows "rel_sum (=) same_groups (group_items ls1 d1) (group_items ls2 d2)"
  using assms
proof (induction arbitrary: d1 d2 rule: list_all2_induct)
  case Nil
  then show ?case by simp
next
  case (Cons l1 ls1 l2 ls2)
  from Cons.hyps(1) obtain a b where l: "l1 = Item a" "l2 = Item b" and ab: "same_fields a b"
    by (cases l1; cases l2) simp_all
  have p: "subscript a ''p'' = subscript b ''p''"
    using ab by (rule same_fields_subscript) (simp add: candle_fields_def)
  show ?case
  proof (cases "subscript b ''p''")
    case (Inl e)
    with p show ?thesis by (simp add: l)
  next
    case (Inr pair_id)
    show ?thesis
      using p Inr Cons.IH[OF same_groups_dict_append[OF Cons.prems ab]]
      by (simp add: l)
  qed
qed

lemma list_comp_same:
  assumes "list_all2 same_fields vs1 vs2" "k \<in> set candle_fields"
  shows "list_comp (\<lambda>val. subscript val k) vs1 = list_comp (\<lambda>val. subscript val k) vs2"
  using assms(1)
proof (induction rule: list_all2_induct)
  case Nil
  then show ?case by simp
next
  case (Cons a vs1 b vs2)
  then show ?case using same_fields_subscript[OF _ assms(2), of a b]
    by (simp cong: sum.case_cong)
qed

lemma candle_frame_same:
  assumes "list_all2 same_fields vs1 vs2"
  shows "candle_frame pd vs1 = candle_frame pd vs2"
proof -
  have eq: "list_comp (\<lambda>val. subscript val k) vs1 = list_comp (\<lambda>val. subscript val k) vs2"
    if "k \<in> set candle_fields" for k
    using assms that by (rule list_comp_same)
  show ?thesis
    unfolding candle_frame_def
    by (simp add: eq[of "''ts''"] eq[of "''o''"] eq[of "''h''"] eq[of "''l''"] eq[of "''c''"]
        eq[of "''v''"] candle_fields_def cong: sum.case_cong)
qed

lemma build_frames_same:
  assumes "same_groups d1 d2"
  shows "build_frames pd d1 acc = build_frames pd d2 acc"
  using assms unfolding same_groups_def
proof (induction arbitrary: acc rule: list_all2_induct)
  case Nil
  then show ?case by simp
next
  case (Cons g1 d1 g2 d2)
  obtain k vs1 where g1: "g1 = (k, vs1)" by (cases g1)
  obtain k' vs2 where g2: "g2 = (k', vs2)" by (cases g2)
  from Cons.hyps(1) have k: "k' = k" and vs: "list_all2 same_fields vs1 vs2"
    by (simp_all add: g1 g2)
  show ?case
    by (simp add: g1 g2 k candle_frame_same[OF vs] Cons.IH cong: sum.case_cong)
qed

lemma read_candles_same:
  assumes "list_all2 agree ls1 ls2"
  shows "read_candles pd ls1 = read_candles pd ls2"
proof -
  have "rel_sum (=) same_groups (group_items ls1 []) (group_items ls2 [])"
    using assms by (rule group_items_same) (simp add: same_groups_def)
  then show ?thesis
    by (cases "group_items ls1 []"; cases "group_items ls2 []")
      (simp_all add: read_candles_def build_frames_same)
qed

subsection \<open>A line without a pair identifier\<close>

lemma group_items_missing_p:
  assumes "map_of fs ''p'' = None"
  shows "group_items (pre @ Item (JObj fs) # post) d =
    (case group_items pre d of Inl e \<Rightarrow> Inl e | Inr d' \<Rightarrow> Inl (KeyError ''p''))"
  using assms by (simp add: group_items_append cong: sum.case_cong)

subsection \<open>Comma-separated values and decimal numerals\<close>

lemma split_commas_single: "CHR '','' \<notin> set x \<Longrightarrow> split_commas x = [x]"
  by (induction x) auto

lemma split_commas_field:
  "CHR '','' \<notin> set x \<Longrightarrow> split_commas (x @ CHR '','' # rest) = x # split_commas rest"
  by (induction x) auto

lemma split_commas_join:
  assumes "xs \<noteq> []" "list_all (\<lambda>x. CHR '','' \<notin> set x) xs"
  shows "split_commas (join '','' xs) = xs"
  using assms
proof (induction "'',''" xs rule: join.induct)
  case 1
  then show ?case by simp
next
  case (2 x)
  then show ?case by (simp add: split_commas_single)
next
  case (3 x y ys)
  then show ?case by (simp add: split_commas_field)
qed

lemma digit_not_comma: "n < 10 \<Longrightarrow> ''0123456789'' ! n \<noteq> CHR '',''"
proof -
  assume "n < 10"
  then have "''0123456789'' ! n \<in> set ''0123456789''" by (intro nth_mem) simp
  then show ?thesis by auto
qed

lemma str_nat_no_comma: "CHR '','' \<notin> set (str_nat n)"
proof (induction n rule: str_nat.induct)
  case (1 n)
  show ?case
  proof (cases "n < 10")
    case True
    then show ?thesis using digit_not_comma[of n] by (subst str_nat.simps) simp
  next
    case False
    then show ?thesis using 1 digit_not_comma[of "n mod 10"]
      by (subst str_nat.simps) simp
  qed
qed

lemma str_int_no_comma: "CHR '','' \<notin> set (str_int i)"
  by (simp add: str_int_def str_nat_no_comma)

lemma digit_values: "list_all (\<lambda>n. digit_value (''0123456789'' ! n) = n) [0..<10]"
  by code_simp

lemma digit_value_nth: "n < 10 \<Longrightarrow> digit_value (''0123456789'' ! n) = n"
  using digit_values by (simp add: list_all_iff)

lemma digit_nth_mem: "n < 10 \<Longrightarrow> ''0123456789'' ! n \<in> set ''0123456789''"
  by (intro nth_mem) simp

lemma decimal_value_snoc: "decimal_value (s @ [c]) = 10 * decimal_value s + digit_value c"
  by (simp add: decimal_value_def)

lemma decimal_value_str_nat: "decimal_value (str_nat n) = n"
proof (induction n rule: str_nat.induct)
  case (1 n)
  show ?case
  proof (cases "n < 10")
    case True
    then show ?thesis
      by (subst str_nat.simps) (simp add: decimal_value_def digit_value_nth)
  next
    case False
    then show ?thesis
      using 1 by (subst str_nat.simps) (simp add: decimal_value_snoc digit_value_nth)
  qed
qed

lemma str_nat_not_empty: "str_nat n \<noteq> []"
  by (subst str_nat.simps) simp

lemma str_nat_digits: "list_all (\<lambda>c. c \<in> set ''0123456789'') (str_nat n)"
proof (induction n rule: str_nat.induct)
  case (1 n)
  show ?case
  proof (cases "n < 10")
    case True
    then show ?thesis
      using digit_nth_mem[of n] by (subst str_nat.simps) simp
  next
    case False
    then show ?thesis
      using 1 digit_nth_mem[of "n mod 10"] by (subst str_nat.simps) simp
  qed
qed

lemma str_nat_leading_zero: "hd (str_nat n) = CHR ''0'' \<Longrightarrow> n = 0"
proof (induction n rule: str_nat.induct)
  case (1 n)
  show ?case
  proof (cases "n < 10")
    case True
    with 1(2) have "''0123456789'' ! n = CHR ''0''"
      by (subst (asm) str_nat.simps) simp
    then have "digit_value (''0123456789'' ! n) = 0"
      by (simp add: digit_value_def)
    with True show ?thesis by (simp add: digit_value_nth)
  next
    case False
    with 1(2) have "hd (str_nat (n div 10)) = CHR ''0''"
      by (subst (asm) str_nat.simps) (simp add: str_nat_not_empty)
    with 1(1) False have "n div 10 = 0" by simp
    with False show ?thesis by simp
  qed
qed

lemma str_nat_zero: "str_nat n = ''0'' \<Longrightarrow> n = 0"
  using decimal_value_str_nat[of n] by (simp add: decimal_value_def digit_value_def)

lemma canonical_str_nat: "canonical_nat (str_nat n)"
proof -
  have "str_nat n = ''0'' \<or> hd (str_nat n) \<noteq> CHR ''0''"
  proof (cases "n = 0")
    case True
    then show ?thesis by (subst str_nat.simps) simp
  next
    case False
    then show ?thesis using str_nat_leading_zero[of n] by blast
  qed
  with str_nat_not_empty[of n] str_nat_digits[of n] show ?thesis
    unfolding canonical_nat_def by blast
qed

lemma str_nat_no_minus: "hd (str_nat n) \<noteq> CHR ''-''"
proof -
  have "hd (str_nat n) \<in> set (str_nat n)"
    by (simp add: str_nat_not_empty)
  then have "hd (str_nat n) \<in> set ''0123456789''"
    using str_nat_digits[of n] by (simp add: list_all_iff)
  then show ?thesis by auto
qed

lemma int_value_str_int: "int_value (str_int i) = i"
proof (cases "i < 0")
  case True
  then show ?thesis by (simp add: str_int_def int_value_def decimal_value_str_nat)
next
  case False
  obtain c cs where s: "str_nat (nat i) = c # cs"
    using str_nat_not_empty[of "nat i"] by (cases "str_nat (nat i)") auto
  with str_nat_no_minus[of "nat i"] have "c \<noteq> CHR ''-''" by simp
  with False show ?thesis
    using decimal_value_str_nat[of "nat i"] by (simp add: str_int_def int_value_def s)
qed

lemma canonical_str_int: "canonical_int (str_int i)"
proof (cases "i < 0")
  case True
  then have "str_nat (nat (- i)) \<noteq> ''0''"
    using str_nat_zero[of "nat (- i)"] by auto
  with True show ?thesis by (simp add: str_int_def canonical_int_def canonical_str_nat)
next
  case False
  obtain c cs where s: "str_nat (nat i) = c # cs"
    using str_nat_not_empty[of "nat i"] by (cases "str_nat (nat i)") auto
  with str_nat_no_minus[of "nat i"] have "c \<noteq> CHR ''-''" by simp
  with False show ?thesis
    using canonical_str_nat[of "nat i"] by (simp add: str_int_def canonical_int_def s)
qed


subsection \<open>Multisets of grouped lines\<close>

lemma map_of_tabulate:
  "map_of (map (\<lambda>k. (k, f k)) ks) k = (if k \<in> set ks then Some (f k) else None)"
  by (induction ks) auto

lemma filter_mset_disjoint_union:
  assumes "\<And>x. \<not> (P x \<and> Q x)"
  shows "filter_mset P M + filter_mset Q M = filter_mset (\<lambda>x. P x \<or> Q x) M"
  using assms by (induction M) auto

lemma mset_concat_groups:
  assumes "distinct ks"
  shows "mset (concat (map (\<lambda>k. map h (filter (\<lambda>l. key l = k) ls)) ks)) =
    image_mset h (filter_mset (\<lambda>l. key l \<in> set ks) (mset ls))"
  using assms
proof (induction ks)
  case Nil
  then show ?case by simp
next
  case (Cons k ks)
  have "filter_mset (\<lambda>l. key l = k) (mset ls) + filter_mset (\<lambda>l. key l \<in> set ks) (mset ls) =
      filter_mset (\<lambda>l. key l = k \<or> key l \<in> set ks) (mset ls)"
    using Cons.prems by (intro filter_mset_disjoint_union) auto
  with Cons show ?case by (simp flip: image_mset_union)
qed

subsection \<open>Columns and frames\<close>

lemma list_comp_success:
  assumes "list_all (\<lambda>x. \<not> isl (h x)) xs"
  shows "list_comp h xs = Inr (map (\<lambda>x. projr (h x)) xs)"
  using assms
proof (induction xs)
  case Nil
  then show ?case by simp
next
  case (Cons x xs)
  then show ?case by (cases "h x") simp_all
qed


lemma column_stored:
  assumes "storable_group pd g" "k \<in> set [''o'', ''h'', ''l'', ''c'', ''v'']"
  shows "column pd (map (field k) g) = Inr (map (stored pd g k) g)"
proof -
  have "list_all (\<lambda>x. \<not> isl (astype pd (infer_dtype pd (map (field k) g)) x)) (map (field k) g)"
    using assms by (auto simp: storable_group_def list_all_iff)
  then show ?thesis
    unfolding column_def by (simp add: list_comp_success stored_def comp_def)
qed

lemma candle_frame_valid:
  assumes "list_all (valid_line pd) g" "storable_group pd g"
  shows "candle_frame pd (map item_of g) = Inr (series pd g)"
  by (simp add: candle_frame_def list_comp_subscript_valid[OF assms(1)]
      list_comp_to_datetime_valid[OF assms(1)] DataFrame_def column_stored[OF assms(2)]
      series_def)

lemma build_frames_valid:
  assumes "list_all is_identifier (map fst acc @ ks)" "distinct (map fst acc @ ks)"
    and "\<forall>k\<in>set ks. list_all (valid_line pd) (F k) \<and> storable_group pd (F k)"
  shows "build_frames pd (map (\<lambda>k. (k, map item_of (F k))) ks) acc =
    Inr (acc @ map (\<lambda>k. (k, series pd (F k))) ks)"
  using assms
proof (induction ks arbitrary: acc)
  case Nil
  then show ?case by simp
next
  case (Cons k ks)
  have fresh: "dict_set k (series pd (F k)) acc = acc @ [(k, series pd (F k))]"
    using Cons.prems(1,2) by (intro dict_set_fresh) auto
  have "build_frames pd (map (\<lambda>k. (k, map item_of (F k))) ks) (acc @ [(k, series pd (F k))]) =
      Inr ((acc @ [(k, series pd (F k))]) @ map (\<lambda>k. (k, series pd (F k))) ks)"
    using Cons.prems by (intro Cons.IH) auto
  then show ?case using Cons.prems(3) by (simp add: candle_frame_valid fresh)
qed

lemma group_of_filter:
  "pair_identifier l = k \<Longrightarrow> group_of ls l = filter (\<lambda>l'. pair_identifier l' = k) ls"
  by (simp add: group_of_def)

lemma read_candles_valid:
  assumes "valid_stream pd ls"
  shows "read_candles pd ls =
    Inr (map (\<lambda>k. (k, series pd (filter (\<lambda>l. pair_identifier l = k) ls)))
          (first_occurrences (map pair_identifier ls)))"
proof -
  from assms have valid: "list_all (valid_line pd) ls" and st: "storable pd ls"
    by (simp_all add: valid_stream_def)
  have ids: "list_all is_identifier (first_occurrences (map pair_identifier ls))"
    using valid by (auto simp: list_all_iff valid_subscript_p(2))
  have "storable_group pd (filter (\<lambda>l. pair_identifier l = k) ls)"
    if "k \<in> set (first_occurrences (map pair_identifier ls))" for k
  proof -
    from that obtain l where l: "l \<in> set ls" "pair_identifier l = k" by auto
    with st have "storable_group pd (group_of ls l)"
      by (simp add: storable_def list_all_iff)
    with l(2) show ?thesis by (simp add: group_of_filter)
  qed
  then have val: "\<forall>k\<in>set (first_occurrences (map pair_identifier ls)).
      list_all (valid_line pd) (filter (\<lambda>l. pair_identifier l = k) ls)
      \<and> storable_group pd (filter (\<lambda>l. pair_identifier l = k) ls)"
    using valid by (auto simp: list_all_iff)
  show ?thesis
    using build_frames_valid[where acc="[]" and pd=pd
        and F="\<lambda>k. filter (\<lambda>l. pair_identifier l = k) ls", OF _ _ val] ids
    by (simp add: read_candles_def group_items_valid[OF valid])
qed

lemma rows_series: "rows (series pd g) = map (group_row pd g) g"
  by (auto simp: rows_def series_def group_row_def intro!: nth_equalityI)

lemma series_shape:
  "length (index (series pd g)) = length g
   \<and> map fst (columns (series pd g)) = [''Open'', ''High'', ''Low'', ''Close'', ''Volume'']
   \<and> list_all (\<lambda>col. length (snd col) = length g) (columns (series pd g))"
  by (simp add: series_def)

lemma stored_cell:
  assumes "storable_group pd g" "l \<in> set g" "k \<in> set [''o'', ''h'', ''l'', ''c'', ''v'']"
  shows "astype pd (infer_dtype pd (map (field k) g)) (field k l) = Inr (stored pd g k l)"
proof -
  from assms have "\<not> isl (astype pd (infer_dtype pd (map (field k) g)) (field k l))"
    by (auto simp: storable_group_def list_all_iff)
  then show ?thesis
    by (cases "astype pd (infer_dtype pd (map (field k) g)) (field k l)") (simp_all add: stored_def)
qed

subsection \<open>The chains response\<close>





subsection \<open>Rows of all groups\<close>

lemma mset_groups_all:
  assumes "\<And>k l. l \<in> set ls \<Longrightarrow> key l = k \<Longrightarrow> r k l = r' l"
  shows "mset (concat (map (\<lambda>k. map (\<lambda>l. (k, r k l)) (filter (\<lambda>l. key l = k) ls))
      (first_occurrences (map key ls)))) = mset (map (\<lambda>l. (key l, r' l)) ls)"
proof -
  have eq: "map (\<lambda>l. (k, r k l)) (filter (\<lambda>l. key l = k) ls) =
      map (\<lambda>l. (key l, r' l)) (filter (\<lambda>l. key l = k) ls)" for k
    by (rule map_cong) (auto simp: assms)
  have "mset (concat (map (\<lambda>k. map (\<lambda>l. (k, r k l)) (filter (\<lambda>l. key l = k) ls))
      (first_occurrences (map key ls)))) =
    image_mset (\<lambda>l. (key l, r' l))
      (filter_mset (\<lambda>l. key l \<in> set (first_occurrences (map key ls))) (mset ls))"
    by (simp only: eq mset_concat_groups[OF distinct_first_occurrences])
  also have "filter_mset (\<lambda>l. key l \<in> set (first_occurrences (map key ls))) (mset ls) = mset ls"
    by (simp flip: mset_filter)
  finally show ?thesis by simp
qed

subsection \<open>Lines that can be grouped\<close>

lemma groupable_subscript:
  assumes "groupable l"
  obtains j p where "l = Item j" "subscript j ''p'' = Inr p" "hashable p"
proof (cases l)
  case (Item j)
  with assms that show ?thesis
    by (cases j) (auto simp: groupable_def split: option.splits)
next
  case (Raises e)
  with assms show ?thesis by (simp add: groupable_def)
qed

lemma group_items_groupable:
  assumes "list_all groupable ls"
  shows "\<exists>d'. group_items ls d = Inr d'"
  using assms
proof (induction ls arbitrary: d)
  case Nil
  then show ?case by simp
next
  case (Cons l ls)
  from Cons.prems have "groupable l" by simp
  then obtain j p where "l = Item j" "subscript j ''p'' = Inr p" "hashable p"
    by (rule groupable_subscript)
  with Cons show ?case by simp
qed

lemma valid_line_groupable: "valid_line pd l \<Longrightarrow> groupable l"
  by (auto simp: valid_line_def groupable_def is_identifier_hashable split: option.splits)

lemma group_items_raises:
  "group_items (pre @ Raises e # post) d =
    (case group_items pre d of Inl e' \<Rightarrow> Inl e' | Inr d' \<Rightarrow> Inl e)"
  by (simp add: group_items_append cong: sum.case_cong)

section \<open>The claims\<close>

text \<open>
  Claim C1. When the response is a valid stream of candle lines (the empty stream
  included), \<open>get_ohlcv_candles\<close> returns a dict \<open>d\<close> with pairwise different keys in
  which every input line has its row in the series stored under the line's own \<open>p\<close>,
  and the rows of all series, each tagged with the key of its series, are as a multiset
  exactly the rows of the input lines, each tagged with the line's \<open>p\<close>: every record
  occurs once, in one series, under its pair identifier. The row of a line is its
  point in time beside its open, high, low, close and volume as pandas stores them in
  the columns of the line's group.
\<close>

theorem every_record_in_exactly_one_series:
  assumes "http (candles_url api_url pair_ids start_time end_time time_bucket max_bytes) = Inr response"
    and "valid_stream pd (raw response)"
  shows "\<exists>d. snd (get_ohlcv_candles http pd api_url pair_ids start_time end_time
                    time_bucket max_bytes) = Inr d
    \<and> distinct (map fst d)
    \<and> (\<forall>l\<in>set (raw response). \<exists>df. map_of d (pair_identifier l) = Some df
          \<and> candle_row pd (raw response) l \<in> set (rows df)
          \<and> to_datetime pd (field ''ts'' l) = Inr (fst (candle_row pd (raw response) l))
          \<and> list_all (\<lambda>k. astype pd (infer_dtype pd (map (field k) (group_of (raw response) l)))
                              (field k l) = Inr (stored pd (group_of (raw response) l) k l))
               [''o'', ''h'', ''l'', ''c'', ''v''])
    \<and> mset (concat (map (\<lambda>g. map (Pair (fst g)) (rows (snd g))) d)) =
        mset (map (\<lambda>l. (pair_identifier l, candle_row pd (raw response) l)) (raw response))"
proof -
  let ?ls = "raw response"
  let ?F = "\<lambda>k. filter (\<lambda>l. pair_identifier l = k) ?ls"
  let ?d = "map (\<lambda>k. (k, series pd (?F k))) (first_occurrences (map pair_identifier ?ls))"
  from assms(2) have valid: "list_all (valid_line pd) ?ls" and st: "storable pd ?ls"
    by (simp_all add: valid_stream_def)
  have res: "snd (get_ohlcv_candles http pd api_url pair_ids start_time end_time
      time_bucket max_bytes) = Inr ?d"
    using assms(1) by (simp add: get_ohlcv_candles_def Let_def read_candles_valid[OF assms(2)])
  have keys: "map fst ?d = first_occurrences (map pair_identifier ?ls)"
    by (simp add: comp_def)
  have row: "group_row pd (?F k) l = candle_row pd ?ls l" if "pair_identifier l = k" for k l
    using that by (simp add: candle_row_def group_of_def)
  have every: "\<exists>df. map_of ?d (pair_identifier l) = Some df
      \<and> candle_row pd ?ls l \<in> set (rows df)
      \<and> to_datetime pd (field ''ts'' l) = Inr (fst (candle_row pd ?ls l))
      \<and> list_all (\<lambda>k. astype pd (infer_dtype pd (map (field k) (group_of ?ls l))) (field k l)
                          = Inr (stored pd (group_of ?ls l) k l))
           [''o'', ''h'', ''l'', ''c'', ''v'']"
    if l: "l \<in> set ?ls" for l
  proof -
    have "map_of ?d (pair_identifier l) = Some (series pd (?F (pair_identifier l)))"
      using l by (simp add: map_of_tabulate)
    moreover have "candle_row pd ?ls l \<in> set (rows (series pd (?F (pair_identifier l))))"
      using l by (simp add: rows_series candle_row_def group_of_def)
    moreover have "to_datetime pd (field ''ts'' l) = Inr (fst (candle_row pd ?ls l))"
      using valid l by (simp add: candle_row_def group_row_def valid_to_datetime list_all_iff)
    moreover have "storable_group pd (group_of ?ls l)" "l \<in> set (group_of ?ls l)"
      using st l by (simp_all add: storable_def list_all_iff group_of_def)
    then have "list_all (\<lambda>k. astype pd (infer_dtype pd (map (field k) (group_of ?ls l))) (field k l)
        = Inr (stored pd (group_of ?ls l) k l)) [''o'', ''h'', ''l'', ''c'', ''v'']"
      by (simp add: stored_cell)
    ultimately show ?thesis by blast
  qed
  have "concat (map (\<lambda>g. map (Pair (fst g)) (rows (snd g))) ?d) =
      concat (map (\<lambda>k. map (\<lambda>l. (k, group_row pd (?F k) l)) (?F k))
        (first_occurrences (map pair_identifier ?ls)))"
    by (simp add: comp_def rows_series)
  also have "mset \<dots> = mset (map (\<lambda>l. (pair_identifier l, candle_row pd ?ls l)) ?ls)"
    by (rule mset_groups_all) (simp add: row)
  finally have all: "mset (concat (map (\<lambda>g. map (Pair (fst g)) (rows (snd g))) ?d)) =
      mset (map (\<lambda>l. (pair_identifier l, candle_row pd ?ls l)) ?ls)" .
  from res keys every all show ?thesis
    by (intro exI[of _ ?d]) (simp only: distinct_first_occurrences, blast)
qed

theorem every_record_in_exactly_one_series_witness:
  "valid_stream sample_pandas [candle 1 100 5, candle 2 100 7, candle 1 200 6]
   \<and> (\<exists>d. snd (get_ohlcv_candles (answer 200 [candle 1 100 5, candle 2 100 7, candle 1 200 6])
                sample_pandas sample_api_url [PyInt 1, PyInt 2] ''2024-01-01'' ''2024-01-02''
                None None) = Inr d
        \<and> distinct (map fst d)
        \<and> (\<forall>l\<in>set [candle 1 100 5, candle 2 100 7, candle 1 200 6].
              \<exists>df. map_of d (pair_identifier l) = Some df
                \<and> candle_row sample_pandas [candle 1 100 5, candle 2 100 7, candle 1 200 6] l
                    \<in> set (rows df))
        \<and> mset (concat (map (\<lambda>g. map (Pair (fst g)) (rows (snd g))) d)) =
            mset (map (\<lambda>l. (pair_identifier l,
                             candle_row sample_pandas
                               [candle 1 100 5, candle 2 100 7, candle 1 200 6] l))
                   [candle 1 100 5, candle 2 100 7, candle 1 200 6]))"
proof -
  let ?ls = "[candle 1 100 5, candle 2 100 7, candle 1 200 6]"
  let ?r = "\<lparr>status_code = 200, json_body = Inl JSONDecodeError, raw = ?ls\<rparr>"
  have h1: "answer 200 ?ls
      (candles_url sample_api_url [PyInt 1, PyInt 2] ''2024-01-01'' ''2024-01-02'' None None) = Inr ?r"
    by (simp add: answer_def)
  have h2: "valid_stream sample_pandas (raw ?r)"
    by (simp add: valid_stream_def valid_line_def storable_def storable_group_def group_of_def
        pair_identifier_def field_def candle_def sample_pandas_def sample_infer_def
        sample_astype_def epoch_seconds_def)
  obtain d where d: "snd (get_ohlcv_candles (answer 200 ?ls) sample_pandas sample_api_url
        [PyInt 1, PyInt 2] ''2024-01-01'' ''2024-01-02'' None None) = Inr d"
    and dist: "distinct (map fst d)"
    and every: "\<forall>l\<in>set (raw ?r). \<exists>df. map_of d (pair_identifier l) = Some df
          \<and> candle_row sample_pandas (raw ?r) l \<in> set (rows df)
          \<and> to_datetime sample_pandas (field ''ts'' l) = Inr (fst (candle_row sample_pandas (raw ?r) l))
          \<and> list_all (\<lambda>k. astype sample_pandas
                               (infer_dtype sample_pandas (map (field k) (group_of (raw ?r) l)))
                               (field k l) = Inr (stored sample_pandas (group_of (raw ?r) l) k l))
               [''o'', ''h'', ''l'', ''c'', ''v'']"
    and all: "mset (concat (map (\<lambda>g. map (Pair (fst g)) (rows (snd g))) d)) =
        mset (map (\<lambda>l. (pair_identifier l, candle_row sample_pandas (raw ?r) l)) (raw ?r))"
    using every_record_in_exactly_one_series[where http="answer 200 ?ls", OF h1 h2] by blast
  have raw: "raw ?r = ?ls"
    by simp
  from every have every': "\<forall>l\<in>set ?ls. \<exists>df. map_of d (pair_identifier l) = Some df
      \<and> candle_row sample_pandas ?ls l \<in> set (rows df)"
    unfolding raw by blast
  from h2 d dist every' all[unfolded raw] show ?thesis
    unfolding raw by - (intro conjI exI[of _ d]; assumption)
qed

text \<open>
  Claim C2. For a valid stream of candle lines, every series of the returned dict
  holds as many rows as there are input lines with the key of the series as their
  \<open>p\<close>, every one of its five columns is as long as the index, and the rows are the
  rows of those lines in the order of the input: the n-th label is the point in time
  converted from the \<open>ts\<close> of the n-th such line, and the n-th cell of the open, high,
  low, close and volume column is what pandas stores for the \<open>o\<close>, \<open>h\<close>, \<open>l\<close>,
  \<open>c\<close>, \<open>v\<close> of that same line.
\<close>

theorem series_keep_count_order_alignment:
  assumes "http (candles_url api_url pair_ids start_time end_time time_bucket max_bytes) = Inr response"
    and "valid_stream pd (raw response)"
  shows "\<exists>d. snd (get_ohlcv_candles http pd api_url pair_ids start_time end_time
                    time_bucket max_bytes) = Inr d
    \<and> (\<forall>g\<in>set d.
          let ls = filter (\<lambda>l. pair_identifier l = fst g) (raw response); df = snd g
          in length (index df) = length ls
             \<and> map fst (columns df) = [''Open'', ''High'', ''Low'', ''Close'', ''Volume'']
             \<and> list_all (\<lambda>col. length (snd col) = length ls) (columns df)
             \<and> df = series pd ls
             \<and> rows df = map (group_row pd ls) ls
             \<and> (\<forall>n<length ls.
                   rows df ! n = group_row pd ls (ls ! n)
                   \<and> to_datetime pd (field ''ts'' (ls ! n)) = Inr (index df ! n)
                   \<and> list_all (\<lambda>k. astype pd (infer_dtype pd (map (field k) ls)) (field k (ls ! n))
                                       = Inr (stored pd ls k (ls ! n)))
                        [''o'', ''h'', ''l'', ''c'', ''v'']))"
proof -
  let ?ls = "raw response"
  let ?F = "\<lambda>k. filter (\<lambda>l. pair_identifier l = k) ?ls"
  let ?ks = "first_occurrences (map pair_identifier ?ls)"
  let ?d = "map (\<lambda>k. (k, series pd (?F k))) ?ks"
  from assms(2) have valid: "list_all (valid_line pd) ?ls" and st: "storable pd ?ls"
    by (simp_all add: valid_stream_def)
  have res: "snd (get_ohlcv_candles http pd api_url pair_ids start_time end_time
      time_bucket max_bytes) = Inr ?d"
    using assms(1) by (simp add: get_ohlcv_candles_def Let_def read_candles_valid[OF assms(2)])
  have group: "length (index (series pd ls)) = length ls
      \<and> map fst (columns (series pd ls)) = [''Open'', ''High'', ''Low'', ''Close'', ''Volume'']
      \<and> list_all (\<lambda>col. length (snd col) = length ls) (columns (series pd ls))
      \<and> series pd ls = series pd ls
      \<and> rows (series pd ls) = map (group_row pd ls) ls
      \<and> (\<forall>n<length ls.
            rows (series pd ls) ! n = group_row pd ls (ls ! n)
            \<and> to_datetime pd (field ''ts'' (ls ! n)) = Inr (index (series pd ls) ! n)
            \<and> list_all (\<lambda>k. astype pd (infer_dtype pd (map (field k) ls)) (field k (ls ! n))
                                = Inr (stored pd ls k (ls ! n)))
                 [''o'', ''h'', ''l'', ''c'', ''v''])"
    if v: "list_all (valid_line pd) ls" and s: "storable_group pd ls" for ls
  proof -
    have "to_datetime pd (field ''ts'' (ls ! n)) = Inr (index (series pd ls) ! n)
        \<and> list_all (\<lambda>k. astype pd (infer_dtype pd (map (field k) ls)) (field k (ls ! n))
                            = Inr (stored pd ls k (ls ! n)))
             [''o'', ''h'', ''l'', ''c'', ''v'']"
      if n: "n < length ls" for n
    proof -
      from n have mem: "ls ! n \<in> set ls" by simp
      with v have "valid_line pd (ls ! n)" by (simp add: list_all_iff)
      then have "to_datetime pd (field ''ts'' (ls ! n)) = Inr (timestamp pd (ls ! n))"
        by (rule valid_to_datetime)
      with n show ?thesis
        using stored_cell[OF s mem] by (simp add: series_def)
    qed
    then show ?thesis
      using series_shape[of pd ls] by (simp add: rows_series)
  qed
  have "storable_group pd (?F k)" if "k \<in> set ?ks" for k
  proof -
    from that obtain l where l: "l \<in> set ?ls" "pair_identifier l = k" by auto
    with st have "storable_group pd (group_of ?ls l)"
      by (simp add: storable_def list_all_iff)
    with l(2) show ?thesis by (simp add: group_of_filter)
  qed
  moreover have "list_all (valid_line pd) (?F k)" for k
    using valid by (simp add: list_all_iff)
  ultimately have "\<forall>g\<in>set ?d.
      let ls = filter (\<lambda>l. pair_identifier l = fst g) ?ls; df = snd g
      in length (index df) = length ls
         \<and> map fst (columns df) = [''Open'', ''High'', ''Low'', ''Close'', ''Volume'']
         \<and> list_all (\<lambda>col. length (snd col) = length ls) (columns df)
         \<and> df = series pd ls
         \<and> rows df = map (group_row pd ls) ls
         \<and> (\<forall>n<length ls.
               rows df ! n = group_row pd ls (ls ! n)
               \<and> to_datetime pd (field ''ts'' (ls ! n)) = Inr (index df ! n)
               \<and> list_all (\<lambda>k. astype pd (infer_dtype pd (map (field k) ls)) (field k (ls ! n))
                                   = Inr (stored pd ls k (ls ! n)))
                    [''o'', ''h'', ''l'', ''c'', ''v''])"
    using group by (auto simp: Let_def)
  with res show ?thesis by blast
qed

theorem series_keep_count_order_alignment_witness:
  "valid_stream sample_pandas
     [candle 1 200 5, candle 2 100 7,
      Item (JObj [(''p'', JInt 1), (''ts'', JInt 100), (''o'', JFloat (13 / 2)),
                  (''h'', JInt 8), (''l'', JInt 5), (''c'', JInt 7), (''v'', JNull)])]
   \<and> snd (get_ohlcv_candles
           (answer 200
              [candle 1 200 5, candle 2 100 7,
               Item (JObj [(''p'', JInt 1), (''ts'', JInt 100), (''o'', JFloat (13 / 2)),
                           (''h'', JInt 8), (''l'', JInt 5), (''c'', JInt 7), (''v'', JNull)])])
           sample_pandas sample_api_url [PyInt 1, PyInt 2] ''2024-01-01'' ''2024-01-02''
           None None) =
       Inr [(JInt 1,
             \<lparr>index = [200, 100],
              columns = [(''Open'', [CFloat 5, CFloat (13 / 2)]), (''High'', [CInt 7, CInt 8]),
                         (''Low'', [CInt 4, CInt 5]), (''Close'', [CInt 6, CInt 7]),
                         (''Volume'', [CFloat (5 / 2), CNaN])]\<rparr>),
            (JInt 2,
             \<lparr>index = [100],
              columns = [(''Open'', [CInt 7]), (''High'', [CInt 9]), (''Low'', [CInt 6]),
                         (''Close'', [CInt 8]), (''Volume'', [CFloat (5 / 2)])]\<rparr>)]"
proof -
  let ?l3 = "Item (JObj [(''p'', JInt 1), (''ts'', JInt 100), (''o'', JFloat (13 / 2)),
                  (''h'', JInt 8), (''l'', JInt 5), (''c'', JInt 7), (''v'', JNull)])"
  let ?ls = "[candle 1 200 5, candle 2 100 7, ?l3]"
  let ?r = "\<lparr>status_code = 200, json_body = Inl JSONDecodeError, raw = ?ls\<rparr>"
  have h1: "answer 200 ?ls
      (candles_url sample_api_url [PyInt 1, PyInt 2] ''2024-01-01'' ''2024-01-02'' None None) = Inr ?r"
    by (simp add: answer_def)
  have h2: "valid_stream sample_pandas (raw ?r)"
    by (simp add: valid_stream_def valid_line_def storable_def storable_group_def group_of_def
        pair_identifier_def field_def candle_def sample_pandas_def sample_infer_def
        sample_astype_def epoch_seconds_def)
  obtain d where d: "snd (get_ohlcv_candles (answer 200 ?ls) sample_pandas sample_api_url
        [PyInt 1, PyInt 2] ''2024-01-01'' ''2024-01-02'' None None) = Inr d"
    and all: "\<forall>g\<in>set d. snd g = series sample_pandas
        (filter (\<lambda>l. pair_identifier l = fst g) (raw ?r))"
    using series_keep_count_order_alignment[where http="answer 200 ?ls", OF h1 h2]
    by (auto simp: Let_def)
  have "snd (get_ohlcv_candles (answer 200 ?ls) sample_pandas sample_api_url
        [PyInt 1, PyInt 2] ''2024-01-01'' ''2024-01-02'' None None) =
       Inr [(JInt 1,
             \<lparr>index = [200, 100],
              columns = [(''Open'', [CFloat 5, CFloat (13 / 2)]), (''High'', [CInt 7, CInt 8]),
                         (''Low'', [CInt 4, CInt 5]), (''Close'', [CInt 6, CInt 7]),
                         (''Volume'', [CFloat (5 / 2), CNaN])]\<rparr>),
            (JInt 2,
             \<lparr>index = [100],
              columns = [(''Open'', [CInt 7]), (''High'', [CInt 9]), (''Low'', [CInt 6]),
                         (''Close'', [CInt 8]), (''Volume'', [CFloat (5 / 2)])]\<rparr>)]"
    by (simp add: get_ohlcv_candles_def read_candles_def answer_def candle_def candle_frame_def
        DataFrame_def column_def sample_pandas_def sample_infer_def sample_astype_def
        epoch_seconds_def py_eq_def)
  moreover have "valid_stream sample_pandas ?ls"
    using h2 by simp
  ultimately show ?thesis
    using d by - (intro conjI; assumption)
qed

text \<open>
  Claim C3. For a valid stream of candle lines, the keys of the returned dict are
  exactly the pair identifiers that occur in the stream, each once, in the order in
  which each occurs first, and no key has an empty series: the series of a key has
  one row for each of the lines with that pair identifier, of which there is at least
  one, under the five columns open, high, low, close and volume, each of that length,
  and it is the series of those lines.
\<close>

theorem keys_are_first_occurrences:
  assumes "http (candles_url api_url pair_ids start_time end_time time_bucket max_bytes) = Inr response"
    and "valid_stream pd (raw response)"
  shows "\<exists>d. snd (get_ohlcv_candles http pd api_url pair_ids start_time end_time
                    time_bucket max_bytes) = Inr d
    \<and> set (map fst d) = set (map pair_identifier (raw response))
    \<and> distinct (map fst d)
    \<and> map fst d = first_occurrences (map pair_identifier (raw response))
    \<and> list_all
        (\<lambda>g. 0 < length (filter (\<lambda>l. pair_identifier l = fst g) (raw response))
           \<and> length (rows (snd g)) = length (filter (\<lambda>l. pair_identifier l = fst g) (raw response))
           \<and> length (index (snd g)) = length (filter (\<lambda>l. pair_identifier l = fst g) (raw response))
           \<and> map fst (columns (snd g)) = [''Open'', ''High'', ''Low'', ''Close'', ''Volume'']
           \<and> list_all (\<lambda>col. length (snd col)
                              = length (filter (\<lambda>l. pair_identifier l = fst g) (raw response)))
                (columns (snd g))
           \<and> snd g = series pd (filter (\<lambda>l. pair_identifier l = fst g) (raw response)))
        d"
proof -
  let ?ls = "raw response"
  let ?F = "\<lambda>k. filter (\<lambda>l. pair_identifier l = k) ?ls"
  let ?ks = "first_occurrences (map pair_identifier ?ls)"
  let ?d = "map (\<lambda>k. (k, series pd (?F k))) ?ks"
  have res: "snd (get_ohlcv_candles http pd api_url pair_ids start_time end_time
      time_bucket max_bytes) = Inr ?d"
    using assms(1) by (simp add: get_ohlcv_candles_def Let_def read_candles_valid[OF assms(2)])
  have keys: "map fst ?d = ?ks"
    by (simp add: comp_def)
  have pos: "0 < length (?F k)" if "k \<in> set ?ks" for k
  proof -
    from that obtain l where "l \<in> set ?ls" "pair_identifier l = k" by auto
    then have "l \<in> set (?F k)" by simp
    then show ?thesis by (simp only: length_pos_if_in_set)
  qed
  have shape: "length (rows (series pd g)) = length g
      \<and> length (index (series pd g)) = length g
      \<and> map fst (columns (series pd g)) = [''Open'', ''High'', ''Low'', ''Close'', ''Volume'']
      \<and> list_all (\<lambda>col. length (snd col) = length g) (columns (series pd g))" for g
    using series_shape[of pd g] by (simp add: rows_series)
  have nonempty: "list_all
      (\<lambda>g. 0 < length (?F (fst g))
         \<and> length (rows (snd g)) = length (?F (fst g))
         \<and> length (index (snd g)) = length (?F (fst g))
         \<and> map fst (columns (snd g)) = [''Open'', ''High'', ''Low'', ''Close'', ''Volume'']
         \<and> list_all (\<lambda>col. length (snd col) = length (?F (fst g))) (columns (snd g))
         \<and> snd g = series pd (?F (fst g)))
      ?d"
    using pos shape by (simp add: list_all_iff)
  have "set (map fst ?d) = set (map pair_identifier ?ls)"
    by (simp only: keys set_first_occurrences)
  moreover have "distinct (map fst ?d)"
    by (simp only: keys distinct_first_occurrences)
  ultimately show ?thesis
    using res keys nonempty by blast
qed

theorem keys_are_first_occurrences_witness:
  "valid_stream sample_pandas [candle 7 100 5, candle 3 100 7, candle 7 200 6, candle 5 100 1]
   \<and> (\<exists>d. snd (get_ohlcv_candles
                  (answer 200 [candle 7 100 5, candle 3 100 7, candle 7 200 6, candle 5 100 1])
                  sample_pandas sample_api_url [PyInt 3, PyInt 5, PyInt 7] ''2024-01-01''
                  ''2024-01-02'' None None) = Inr d
        \<and> map fst d = [JInt 7, JInt 3, JInt 5]
        \<and> map (\<lambda>g. length (rows (snd g))) d = [2, 1, 1]
        \<and> map (\<lambda>g. map fst (columns (snd g))) d =
            [[''Open'', ''High'', ''Low'', ''Close'', ''Volume''],
             [''Open'', ''High'', ''Low'', ''Close'', ''Volume''],
             [''Open'', ''High'', ''Low'', ''Close'', ''Volume'']])"
proof -
  let ?ls = "[candle 7 100 5, candle 3 100 7, candle 7 200 6, candle 5 100 1]"
  let ?r = "\<lparr>status_code = 200, json_body = Inl JSONDecodeError, raw = ?ls\<rparr>"
  let ?P = "\<lambda>g. 0 < length (filter (\<lambda>l. pair_identifier l = fst g) (raw ?r))
           \<and> length (rows (snd g)) = length (filter (\<lambda>l. pair_identifier l = fst g) (raw ?r))
           \<and> length (index (snd g)) = length (filter (\<lambda>l. pair_identifier l = fst g) (raw ?r))
           \<and> map fst (columns (snd g)) = [''Open'', ''High'', ''Low'', ''Close'', ''Volume'']
           \<and> list_all (\<lambda>col. length (snd col)
                              = length (filter (\<lambda>l. pair_identifier l = fst g) (raw ?r)))
                (columns (snd g))
           \<and> snd g = series sample_pandas (filter (\<lambda>l. pair_identifier l = fst g) (raw ?r))"
  have h1: "answer 200 ?ls
      (candles_url sample_api_url [PyInt 3, PyInt 5, PyInt 7] ''2024-01-01'' ''2024-01-02''
        None None) = Inr ?r"
    by (simp add: answer_def)
  have h2: "valid_stream sample_pandas (raw ?r)"
    by (simp add: valid_stream_def valid_line_def storable_def storable_group_def group_of_def
        pair_identifier_def field_def candle_def sample_pandas_def sample_infer_def
        sample_astype_def epoch_seconds_def)
  obtain d where d: "snd (get_ohlcv_candles (answer 200 ?ls) sample_pandas sample_api_url
        [PyInt 3, PyInt 5, PyInt 7] ''2024-01-01'' ''2024-01-02'' None None) = Inr d"
    and k: "map fst d = first_occurrences (map pair_identifier (raw ?r))"
    and ne: "list_all ?P d"
    using keys_are_first_occurrences[where http="answer 200 ?ls", OF h1 h2] by blast
  have keys: "map fst d = [JInt 7, JInt 3, JInt 5]"
    using k by (simp add: pair_identifier_def field_def candle_def)
  then obtain f7 f3 f5 where dd: "d = [(JInt 7, f7), (JInt 3, f3), (JInt 5, f5)]"
    by (auto simp: map_eq_Cons_conv)
  from ne have "map (\<lambda>g. length (rows (snd g))) d = [2, 1, 1]"
    unfolding dd by (auto simp: pair_identifier_def field_def candle_def rows_series)
  moreover from ne have "map (\<lambda>g. map fst (columns (snd g))) d =
      [[''Open'', ''High'', ''Low'', ''Close'', ''Volume''],
       [''Open'', ''High'', ''Low'', ''Close'', ''Volume''],
       [''Open'', ''High'', ''Low'', ''Close'', ''Volume'']]"
    unfolding dd by (auto simp: series_def)
  moreover have "valid_stream sample_pandas ?ls"
    using h2 by simp
  ultimately show ?thesis
    using d keys by - (intro conjI exI[of _ d]; assumption)
qed

text \<open>
  Claim C4. When some line of the response is an object without the field \<open>p\<close>,
  \<open>get_ohlcv_candles\<close> returns an exception and no dict, whatever the other lines
  are; when the lines before it are valid candle lines, the exception is
  \<^verbatim>\<open>KeyError('p')\<close>.
\<close>

theorem missing_p_raises:
  assumes "http (candles_url api_url pair_ids start_time end_time time_bucket max_bytes) = Inr response"
    and "raw response = before @ Item (JObj fs) # rest"
    and "map_of fs ''p'' = None"
  shows "isl (snd (get_ohlcv_candles http pd api_url pair_ids start_time end_time
                     time_bucket max_bytes))
    \<and> (list_all (valid_line pd) before \<longrightarrow>
         snd (get_ohlcv_candles http pd api_url pair_ids start_time end_time
                time_bucket max_bytes) = Inl (KeyError ''p''))"
proof -
  have res: "snd (get_ohlcv_candles http pd api_url pair_ids start_time end_time
      time_bucket max_bytes) =
      (case group_items before [] of Inl e \<Rightarrow> Inl e | Inr d \<Rightarrow> Inl (KeyError ''p''))"
    using assms(1)
    by (simp add: get_ohlcv_candles_def Let_def read_candles_def assms(2)
        group_items_missing_p[OF assms(3)] split: sum.splits)
  then show ?thesis
    by (auto simp: group_items_valid split: sum.splits)
qed

theorem missing_p_raises_witness:
  "map_of [(''ts'', JInt 200), (''o'', JInt 1)] ''p'' = None
   \<and> list_all (valid_line sample_pandas) [candle 1 100 5]
   \<and> snd (get_ohlcv_candles
           (answer 200 ([candle 1 100 5] @ Item (JObj [(''ts'', JInt 200), (''o'', JInt 1)])
                          # [candle 1 300 6]))
           sample_pandas sample_api_url [PyInt 1] ''2024-01-01'' ''2024-01-02'' None None) =
       Inl (KeyError ''p'')"
proof -
  let ?fs = "[(''ts'', JInt 200), (''o'', JInt 1)]"
  let ?ls = "[candle 1 100 5] @ Item (JObj ?fs) # [candle 1 300 6]"
  let ?r = "\<lparr>status_code = 200, json_body = Inl JSONDecodeError, raw = ?ls\<rparr>"
  have h1: "answer 200 ?ls
      (candles_url sample_api_url [PyInt 1] ''2024-01-01'' ''2024-01-02'' None None) = Inr ?r"
    by (simp add: answer_def)
  have h2: "raw ?r = [candle 1 100 5] @ Item (JObj ?fs) # [candle 1 300 6]"
    by simp
  have h3: "map_of ?fs ''p'' = None"
    by simp
  have h4: "list_all (valid_line sample_pandas) [candle 1 100 5]"
    by (simp add: valid_line_def candle_def sample_pandas_def epoch_seconds_def)
  show ?thesis
    using missing_p_raises[where http="answer 200 ?ls" and pd=sample_pandas, OF h1 h2 h3]
      h3 h4
    by blast
qed

text \<open>
  Claim C5, as the code has it. \<open>get_ohlcv_candles\<close> returns the exception of
  \<^verbatim>\<open>requests.get\<close> when that call raises. The body is streamed, so the request can
  also fail while the lines are read: an exception of the read always ends the call
  with an exception and no dict, and with that very exception when the lines before
  it could be grouped. When a response arrives, its lines are read as candle lines
  whatever its status code is: the status code is never inspected, so a response with
  a status outside 2xx gives the same result as the same lines with status 200.
\<close>

theorem transport_errors_propagate_status_unread:
  "(http (candles_url api_url pair_ids start_time end_time time_bucket max_bytes) = Inl e \<longrightarrow>
      snd (get_ohlcv_candles http pd api_url pair_ids start_time end_time
             time_bucket max_bytes) = Inl e)
   \<and> (http (candles_url api_url pair_ids start_time end_time time_bucket max_bytes) = Inr response
        \<and> raw response = before @ Raises e' # rest \<longrightarrow>
      isl (snd (get_ohlcv_candles http pd api_url pair_ids start_time end_time
                  time_bucket max_bytes))
      \<and> (list_all groupable before \<longrightarrow>
           snd (get_ohlcv_candles http pd api_url pair_ids start_time end_time
                  time_bucket max_bytes) = Inl e'))
   \<and> (http (candles_url api_url pair_ids start_time end_time time_bucket max_bytes) = Inr response
        \<and> http' (candles_url api_url pair_ids start_time end_time time_bucket max_bytes)
            = Inr (response\<lparr>status_code := s\<rparr>) \<longrightarrow>
      snd (get_ohlcv_candles http pd api_url pair_ids start_time end_time
             time_bucket max_bytes) = read_candles pd (raw response)
      \<and> snd (get_ohlcv_candles http' pd api_url pair_ids start_time end_time
               time_bucket max_bytes) =
          snd (get_ohlcv_candles http pd api_url pair_ids start_time end_time
                 time_bucket max_bytes))"
proof -
  have stream: "isl (read_candles pd (before @ Raises e' # rest))
      \<and> (list_all groupable before \<longrightarrow> read_candles pd (before @ Raises e' # rest) = Inl e')"
  proof (cases "group_items before []")
    case (Inl x)
    then show ?thesis
      using group_items_groupable[of before "[]"]
      by (auto simp: read_candles_def group_items_raises)
  next
    case (Inr d)
    then show ?thesis
      by (simp add: read_candles_def group_items_raises)
  qed
  show ?thesis
    using stream by (auto simp: get_ohlcv_candles_def Let_def)
qed

theorem transport_errors_propagate_status_unread_witness:
  "snd (get_ohlcv_candles unreachable sample_pandas sample_api_url [PyInt 1] ''2024-01-01''
          ''2024-01-02'' None None) = Inl RequestException
   \<and> list_all groupable [candle 1 100 5, candle 2 100 7]
   \<and> snd (get_ohlcv_candles
            (answer 200 ([candle 1 100 5, candle 2 100 7] @ Raises RequestException
                           # [candle 1 200 6]))
            sample_pandas sample_api_url [PyInt 1] ''2024-01-01'' ''2024-01-02'' None None) =
       Inl RequestException
   \<and> snd (get_ohlcv_candles (answer 503 [candle 1 100 5]) sample_pandas sample_api_url [PyInt 1]
            ''2024-01-01'' ''2024-01-02'' None None) =
       snd (get_ohlcv_candles (answer 200 [candle 1 100 5]) sample_pandas sample_api_url [PyInt 1]
            ''2024-01-01'' ''2024-01-02'' None None)"
proof -
  let ?broken = "[candle 1 100 5, candle 2 100 7] @ Raises RequestException # [candle 1 200 6]"
  have "snd (get_ohlcv_candles unreachable sample_pandas sample_api_url [PyInt 1] ''2024-01-01''
          ''2024-01-02'' None None) = Inl RequestException"
    using transport_errors_propagate_status_unread[where http=unreachable and e=RequestException
        and pd=sample_pandas and api_url=sample_api_url and pair_ids="[PyInt 1]"
        and start_time="''2024-01-01''" and end_time="''2024-01-02''" and time_bucket=None
        and max_bytes=None]
    by (simp add: unreachable_def)
  moreover have g: "list_all groupable [candle 1 100 5, candle 2 100 7]"
    by (simp add: groupable_def candle_def)
  moreover have "snd (get_ohlcv_candles (answer 200 ?broken) sample_pandas sample_api_url
        [PyInt 1] ''2024-01-01'' ''2024-01-02'' None None) = Inl RequestException"
    using transport_errors_propagate_status_unread[where http="answer 200 ?broken"
        and e'=RequestException and before="[candle 1 100 5, candle 2 100 7]"
        and rest="[candle 1 200 6]"
        and response="\<lparr>status_code = 200, json_body = Inl JSONDecodeError, raw = ?broken\<rparr>"
        and pd=sample_pandas and api_url=sample_api_url and pair_ids="[PyInt 1]"
        and start_time="''2024-01-01''" and end_time="''2024-01-02''" and time_bucket=None
        and max_bytes=None] g
    by (simp add: answer_def)
  moreover have "snd (get_ohlcv_candles (answer 503 [candle 1 100 5]) sample_pandas sample_api_url
        [PyInt 1] ''2024-01-01'' ''2024-01-02'' None None) =
      snd (get_ohlcv_candles (answer 200 [candle 1 100 5]) sample_pandas sample_api_url [PyInt 1]
        ''2024-01-01'' ''2024-01-02'' None None)"
    using transport_errors_propagate_status_unread[where http="answer 200 [candle 1 100 5]"
        and http'="answer 503 [candle 1 100 5]" and s=503
        and response="\<lparr>status_code = 200, json_body = Inl JSONDecodeError, raw = [candle 1 100 5]\<rparr>"
        and pd=sample_pandas and api_url=sample_api_url and pair_ids="[PyInt 1]"
        and start_time="''2024-01-01''" and end_time="''2024-01-02''" and time_bucket=None
        and max_bytes=None]
    by (simp add: answer_def)
  ultimately show ?thesis by (intro conjI)
qed

text \<open>
  Claim C5 as stated fails: a response with status 404 whose body is one candle line
  is not turned into an exception; the line is parsed and returned as candle data.
\<close>

theorem status_404_is_parsed_as_candles:
  "snd (get_ohlcv_candles (answer 404 [candle 1 100 5]) sample_pandas sample_api_url [PyInt 1]
          ''2024-01-01'' ''2024-01-02'' None None) =
     Inr [(JInt 1,
           \<lparr>index = [100],
            columns = [(''Open'', [CInt 5]), (''High'', [CInt 7]), (''Low'', [CInt 4]),
                       (''Close'', [CInt 6]), (''Volume'', [CFloat (5 / 2)])]\<rparr>)]"
  by (simp add: get_ohlcv_candles_def read_candles_def answer_def candle_def candle_frame_def
      DataFrame_def column_def sample_pandas_def sample_infer_def sample_astype_def
      epoch_seconds_def)

text \<open>
  Claim C6. When the response has no line, \<open>get_ohlcv_candles\<close> returns the empty
  dict, not an exception.
\<close>

theorem empty_stream_gives_empty_dict:
  assumes "http (candles_url api_url pair_ids start_time end_time time_bucket max_bytes) = Inr response"
    and "raw response = []"
  shows "snd (get_ohlcv_candles http pd api_url pair_ids start_time end_time
                time_bucket max_bytes) = Inr []"
  using assms by (simp add: get_ohlcv_candles_def Let_def read_candles_def)

theorem empty_stream_gives_empty_dict_witness:
  "snd (get_ohlcv_candles (answer 200 []) sample_pandas sample_api_url [PyInt 1, PyInt 2]
          ''2024-01-01'' ''2024-01-02'' None None) = Inr []"
proof -
  let ?r = "\<lparr>status_code = 200, json_body = Inl JSONDecodeError, raw = []\<rparr>"
  have h1: "answer 200 []
      (candles_url sample_api_url [PyInt 1, PyInt 2] ''2024-01-01'' ''2024-01-02'' None None) = Inr ?r"
    by (simp add: answer_def)
  have h2: "raw ?r = []"
    by simp
  show ?thesis
    using empty_stream_gives_empty_dict[where http="answer 200 []", OF h1 h2] .
qed

text \<open>
  Claim C7. For every list \<open>pair_ids\<close>, \<open>get_ohlcv_candles\<close> issues exactly one GET:
  the list of its requests is the one URL made of the base URL followed by
  \<^verbatim>\<open>candles-jsonl?pair_ids=<csv>&time_bucket=<bucket>&start=<start>&end=<end>&max_bytes=<bytes>\<close>,
  its result is read from the answer of the server to that URL, and it uses nothing
  else of the server. The bucket is \<open>15m\<close> and the bytes are \<open>250000000\<close> when the
  argument is left out. In \<open>csv\<close> the pair ids are joined with commas, a string id as
  it is and an integer id as its canonical decimal numeral, in the given order and
  with their duplicates: when the list is not empty and no id contains a comma (an
  integer id never does), splitting \<open>csv\<close> at the commas gives back the ids as they
  were passed.
\<close>

theorem one_get_with_comma_joined_pair_ids:
  "(let url = api_url @ ''candles-jsonl?pair_ids='' @ join '','' (map str pair_ids)
        @ ''&time_bucket='' @ (case time_bucket of None \<Rightarrow> ''15m'' | Some b \<Rightarrow> b)
        @ ''&start='' @ start_time
        @ ''&end='' @ end_time
        @ ''&max_bytes='' @ (case max_bytes of None \<Rightarrow> ''250000000'' | Some n \<Rightarrow> str_int n)
    in get_ohlcv_candles http pd api_url pair_ids start_time end_time time_bucket max_bytes =
         ([url],
          case http url of
            Inl e \<Rightarrow> Inl e
          | Inr response \<Rightarrow> read_candles pd (raw response))
       \<and> (http' url = http url \<longrightarrow>
            get_ohlcv_candles http' pd api_url pair_ids start_time end_time time_bucket max_bytes =
            get_ohlcv_candles http pd api_url pair_ids start_time end_time time_bucket max_bytes))
   \<and> str (PyStr s) = s
   \<and> int_value (str (PyInt i)) = i
   \<and> canonical_int (str (PyInt i))
   \<and> CHR '','' \<notin> set (str (PyInt i))
   \<and> (pair_ids \<noteq> [] \<and> list_all (\<lambda>p. CHR '','' \<notin> set (str p)) pair_ids \<longrightarrow>
        split_commas (join '','' (map str pair_ids)) = map str pair_ids)"
proof -
  have bytes: "str_int 250000000 = ''250000000''"
    by (simp add: str_int_def str_nat.simps)
  have url: "candles_url api_url pair_ids start_time end_time time_bucket max_bytes =
      api_url @ ''candles-jsonl?pair_ids='' @ join '','' (map str pair_ids)
        @ ''&time_bucket='' @ (case time_bucket of None \<Rightarrow> ''15m'' | Some b \<Rightarrow> b)
        @ ''&start='' @ start_time
        @ ''&end='' @ end_time
        @ ''&max_bytes='' @ (case max_bytes of None \<Rightarrow> ''250000000'' | Some n \<Rightarrow> str_int n)"
    by (cases max_bytes) (simp_all add: candles_url_def Let_def bytes)
  have request: "get_ohlcv_candles h pd api_url pair_ids start_time end_time time_bucket max_bytes =
      ([candles_url api_url pair_ids start_time end_time time_bucket max_bytes],
       case h (candles_url api_url pair_ids start_time end_time time_bucket max_bytes) of
         Inl e \<Rightarrow> Inl e
       | Inr response \<Rightarrow> read_candles pd (raw response))" for h
    by (simp add: get_ohlcv_candles_def Let_def)
  have split: "split_commas (join '','' (map str pair_ids)) = map str pair_ids"
    if "pair_ids \<noteq> []" "list_all (\<lambda>p. CHR '','' \<notin> set (str p)) pair_ids"
    using that by (intro split_commas_join) (simp_all add: list_all_iff)
  show ?thesis
    unfolding Let_def request url[symmetric]
    using split by (simp add: str_int_no_comma int_value_str_int canonical_str_int)
qed

theorem one_get_with_comma_joined_pair_ids_witness:
  "get_ohlcv_candles (answer 200 [])  sample_pandas sample_api_url
     [PyInt 1, PyStr ''2'', PyInt (- 30), PyStr ''2''] ''2024-01-01'' ''2024-01-02'' None None =
     ([''https://tradingstrategy.ai/api/candles-jsonl?pair_ids=1,2,-30,2&time_bucket=15m&start=2024-01-01&end=2024-01-02&max_bytes=250000000''],
      Inr [])
   \<and> split_commas ''1,2,-30,2'' = [''1'', ''2'', ''-30'', ''2'']
   \<and> int_value ''-30'' = - 30
   \<and> canonical_int ''-30''"
proof -
  have ids: "str_int 1 = ''1''" "str_int (- 30) = ''-30''"
    by (simp_all add: str_int_def str_nat.simps)
  have nonempty: "[PyInt 1, PyStr ''2'', PyInt (- 30), PyStr ''2''] \<noteq> []"
    by simp
  have commas: "list_all (\<lambda>p. CHR '','' \<notin> set (str p))
      [PyInt 1, PyStr ''2'', PyInt (- 30), PyStr ''2'']"
    by (simp add: ids)
  have parsed: "read_candles sample_pandas [] = Inr []"
    by (simp add: read_candles_def)
  show ?thesis
    using one_get_with_comma_joined_pair_ids[where http="answer 200 []" and pd=sample_pandas
        and api_url=sample_api_url and pair_ids="[PyInt 1, PyStr ''2'', PyInt (- 30), PyStr ''2'']"
        and start_time="''2024-01-01''" and end_time="''2024-01-02''" and time_bucket=None
        and max_bytes=None and i="- 30" and http'="answer 200 []" and s="''2''"]
      nonempty commas
    by (simp add: ids sample_api_url_def Let_def answer_def parsed)
qed

text \<open>
  Claim C9. With an empty list of pair ids the request is built without an
  exception: the comma-join of no id is the empty string, so the one URL requested
  carries \<^verbatim>\<open>pair_ids=\<close> with an empty value, and the call goes on to the response
  as with any other list.
\<close>

theorem empty_pair_ids_are_not_refused:
  "join '','' (map str []) = []
   \<and> get_ohlcv_candles http pd api_url [] start_time end_time time_bucket max_bytes =
     ([api_url @ ''candles-jsonl?pair_ids=&time_bucket=''
        @ (case time_bucket of None \<Rightarrow> ''15m'' | Some b \<Rightarrow> b)
        @ ''&start='' @ start_time @ ''&end='' @ end_time
        @ ''&max_bytes='' @ str_int (case max_bytes of None \<Rightarrow> 250000000 | Some n \<Rightarrow> n)],
      case http (api_url @ ''candles-jsonl?pair_ids=&time_bucket=''
                 @ (case time_bucket of None \<Rightarrow> ''15m'' | Some b \<Rightarrow> b)
                 @ ''&start='' @ start_time @ ''&end='' @ end_time
                 @ ''&max_bytes='' @ str_int (case max_bytes of None \<Rightarrow> 250000000 | Some n \<Rightarrow> n)) of
        Inl e \<Rightarrow> Inl e
      | Inr response \<Rightarrow> read_candles pd (raw response))"
  by (simp add: get_ohlcv_candles_def candles_url_def Let_def)

theorem empty_pair_ids_are_not_refused_witness:
  "get_ohlcv_candles (answer 200 [candle 1 100 5]) sample_pandas sample_api_url []
     ''2024-01-01'' ''2024-01-02'' (Some ''1h'') (Some 1000) =
     ([''https://tradingstrategy.ai/api/candles-jsonl?pair_ids=&time_bucket=1h&start=2024-01-01&end=2024-01-02&max_bytes=1000''],
      Inr [(JInt 1,
            \<lparr>index = [100],
             columns = [(''Open'', [CInt 5]), (''High'', [CInt 7]), (''Low'', [CInt 4]),
                        (''Close'', [CInt 6]), (''Volume'', [CFloat (5 / 2)])]\<rparr>)])"
proof -
  have bytes: "str_int 1000 = ''1000''"
    by (simp add: str_int_def str_nat.simps)
  have parsed: "read_candles sample_pandas [candle 1 100 5] =
      Inr [(JInt 1,
            \<lparr>index = [100],
             columns = [(''Open'', [CInt 5]), (''High'', [CInt 7]), (''Low'', [CInt 4]),
                        (''Close'', [CInt 6]), (''Volume'', [CFloat (5 / 2)])]\<rparr>)]"
    by (simp add: read_candles_def candle_def candle_frame_def DataFrame_def column_def
        sample_pandas_def sample_infer_def sample_astype_def epoch_seconds_def)
  show ?thesis
    using empty_pair_ids_are_not_refused[where http="answer 200 [candle 1 100 5]"
        and pd=sample_pandas and api_url=sample_api_url and start_time="''2024-01-01''"
        and end_time="''2024-01-02''" and time_bucket="Some ''1h''" and max_bytes="Some 1000"]
    by (simp add: bytes parsed sample_api_url_def answer_def)
qed

text \<open>
  Claim C10. The result of \<open>get_ohlcv_candles\<close> depends only on the fields \<open>p\<close>,
  \<open>ts\<close>, \<open>o\<close>, \<open>h\<close>, \<open>l\<close>, \<open>c\<close>, \<open>v\<close> of the response lines: two responses with
  equally many lines whose lines agree one by one on these seven fields give the same
  result, be it a dict or an exception; other fields of a line change nothing.
\<close>

theorem result_depends_only_on_candle_fields:
  assumes "http1 (candles_url api_url pair_ids start_time end_time time_bucket max_bytes) = Inr response1"
    and "http2 (candles_url api_url pair_ids start_time end_time time_bucket max_bytes) = Inr response2"
    and "length (raw response1) = length (raw response2)"
    and "\<forall>n<length (raw response1). agree (raw response1 ! n) (raw response2 ! n)"
  shows "snd (get_ohlcv_candles http1 pd api_url pair_ids start_time end_time
                time_bucket max_bytes) =
         snd (get_ohlcv_candles http2 pd api_url pair_ids start_time end_time
                time_bucket max_bytes)"
proof -
  have "list_all2 agree (raw response1) (raw response2)"
    using assms(3,4) by (simp add: list_all2_conv_all_nth)
  then have "read_candles pd (raw response1) = read_candles pd (raw response2)"
    by (rule read_candles_same)
  then show ?thesis
    using assms(1,2) by (simp add: get_ohlcv_candles_def Let_def)
qed

theorem result_depends_only_on_candle_fields_witness:
  "agree (candle 1 100 5)
     (Item (JObj [(''b'', JBool True), (''v'', JFloat (5 / 2)), (''c'', JInt 6), (''l'', JInt 4),
                  (''h'', JInt 7), (''o'', JInt 5), (''ts'', JInt 100), (''p'', JInt 1)]))
   \<and> snd (get_ohlcv_candles (answer 200 [candle 1 100 5]) sample_pandas sample_api_url [PyInt 1]
            ''2024-01-01'' ''2024-01-02'' None None) =
     snd (get_ohlcv_candles
            (answer 200
               [Item (JObj [(''b'', JBool True), (''v'', JFloat (5 / 2)), (''c'', JInt 6),
                            (''l'', JInt 4), (''h'', JInt 7), (''o'', JInt 5), (''ts'', JInt 100),
                            (''p'', JInt 1)])])
            sample_pandas sample_api_url [PyInt 1] ''2024-01-01'' ''2024-01-02'' None None)"
proof -
  let ?l2 = "Item (JObj [(''b'', JBool True), (''v'', JFloat (5 / 2)), (''c'', JInt 6),
    (''l'', JInt 4), (''h'', JInt 7), (''o'', JInt 5), (''ts'', JInt 100), (''p'', JInt 1)])"
  let ?r1 = "\<lparr>status_code = 200, json_body = Inl JSONDecodeError, raw = [candle 1 100 5]\<rparr>"
  let ?r2 = "\<lparr>status_code = 200, json_body = Inl JSONDecodeError, raw = [?l2]\<rparr>"
  have h1: "answer 200 [candle 1 100 5]
      (candles_url sample_api_url [PyInt 1] ''2024-01-01'' ''2024-01-02'' None None) = Inr ?r1"
    by (simp add: answer_def)
  have h2: "answer 200 [?l2]
      (candles_url sample_api_url [PyInt 1] ''2024-01-01'' ''2024-01-02'' None None) = Inr ?r2"
    by (simp add: answer_def)
  have h3: "length (raw ?r1) = length (raw ?r2)"
    by simp
  have a: "agree (candle 1 100 5) ?l2"
    by (simp add: candle_def same_fields_def candle_fields_def)
  have h4: "\<forall>n<length (raw ?r1). agree (raw ?r1 ! n) (raw ?r2 ! n)"
    using a by simp
  show ?thesis
    using result_depends_only_on_candle_fields[where ?http1.0="answer 200 [candle 1 100 5]"
        and ?http2.0="answer 200 [?l2]" and pd=sample_pandas, OF h1 h2 h3 h4] a
    by - (intro conjI; assumption)
qed



end
